theory Spec2Isabelle
  imports Complex_Main "HOL-Library.Word"
begin

text \<open>
  A model of the reverse geocoder \<open>rgeo\<close>. The sources hold two revisions of the
  package; the model follows the later one (built on \<open>orb\<close>, with datasets' geometries
  and \<open>ReverseGeocodeWithGeometry\<close>). The earlier one (built on \<open>go-geom\<close>) has the same
  \<open>firstNonEmpty\<close>, \<open>getPropertyString\<close>, \<open>loopFromRing\<close> and the same two checks in
  \<open>loopSliceFromPolygon\<close>; its \<open>combineLocations\<close> assigns the fields one by one to the
  same effect.
\<close>

section \<open>Data model\<close>

text \<open>
  The \<open>Location\<close> struct of the package: eleven string fields, the zero value of
  each being the empty string.
\<close>

record Location =
  Country :: string
  CountryLong :: string
  CountryCode2 :: string
  CountryCode3 :: string
  Continent :: string
  Region :: string
  SubRegion :: string
  Province :: string
  ProvinceCode :: string
  County :: string
  City :: string

definition Location_zero :: Location where
  "Location_zero =
     \<lparr>Country = '''', CountryLong = '''', CountryCode2 = '''', CountryCode3 = '''',
      Continent = '''', Region = '''', SubRegion = '''', Province = '''',
      ProvinceCode = '''', County = '''', City = ''''\<rparr>"

text \<open>
  Coordinates are \<open>float64\<close> in the source; the model leaves their type \<open>'f\<close> open.
  An \<open>orb.Point\<close> is the pair (longitude, latitude), a ring a list of points, a
  polygon a list of rings, a multi-polygon a list of polygons. Every other kind of
  \<open>orb.Geometry\<close> (and a missing geometry) is \<open>OtherGeometry\<close>.
\<close>

type_synonym 'f point = "'f \<times> 'f"
type_synonym 'f ring = "'f point list"
type_synonym 'f polygon = "'f ring list"

datatype 'f geometry =
    Polygon "'f polygon"
  | MultiPolygon "'f polygon list"
  | OtherGeometry

text \<open>
  A decoded JSON value, as \<open>encoding/json\<close> stores it in an \<open>interface{}\<close>.
\<close>

datatype 'f jvalue =
    JString string
  | JNumber 'f
  | JBool bool
  | JNull
  | JArray "'f jvalue list"
  | JObject "(string \<times> 'f jvalue) list"

type_synonym 'f properties = "string \<rightharpoonup> 'f jvalue"

record 'f LocationWithGeometry =
  Loc :: Location
  Geometry :: "'f geometry option"

definition LocationWithGeometry_zero :: "'f LocationWithGeometry" where
  "LocationWithGeometry_zero = \<lparr>Loc = Location_zero, Geometry = None\<rparr>"

section \<open>Combining locations\<close>

text \<open>\<open>firstNonEmpty\<close>: the first non-empty string of its arguments, else the empty one.\<close>

fun firstNonEmpty :: "string list \<Rightarrow> string" where
  "firstNonEmpty [] = ''''"
| "firstNonEmpty (i # s) = (if i \<noteq> '''' then i else firstNonEmpty s)"

text \<open>
  A shape is identified by the pointer to its \<open>s2.Polygon\<close>; the model uses a natural
  number as that identity. Reading a Go map at a missing key gives the zero value.
\<close>

type_synonym shape = nat

definition locs_at :: "(shape \<rightharpoonup> Location) \<Rightarrow> shape \<Rightarrow> Location" where
  "locs_at m sh = (case m sh of None \<Rightarrow> Location_zero | Some l \<Rightarrow> l)"

text \<open>One iteration of the loop of \<open>combineLocations\<close>.\<close>

definition combine_step :: "Location \<Rightarrow> Location \<Rightarrow> Location" where
  "combine_step l loc =
     \<lparr>Country = firstNonEmpty [Country l, Country loc],
      CountryLong = firstNonEmpty [CountryLong l, CountryLong loc],
      CountryCode2 = firstNonEmpty [CountryCode2 l, CountryCode2 loc],
      CountryCode3 = firstNonEmpty [CountryCode3 l, CountryCode3 loc],
      Continent = firstNonEmpty [Continent l, Continent loc],
      Region = firstNonEmpty [Region l, Region loc],
      SubRegion = firstNonEmpty [SubRegion l, SubRegion loc],
      Province = firstNonEmpty [Province l, Province loc],
      ProvinceCode = firstNonEmpty [ProvinceCode l, ProvinceCode loc],
      County = firstNonEmpty [County l, County loc],
      City = firstNonEmpty [City l, City loc]\<rparr>"

fun combineLocations_loop :: "(shape \<rightharpoonup> Location) \<Rightarrow> shape list \<Rightarrow> Location \<Rightarrow> Location" where
  "combineLocations_loop m [] l = l"
| "combineLocations_loop m (sh # s) l = combineLocations_loop m s (combine_step l (locs_at m sh))"

definition combineLocations :: "(shape \<rightharpoonup> Location) \<Rightarrow> shape list \<Rightarrow> Location" where
  "combineLocations m s = combineLocations_loop m s Location_zero"

section \<open>Rendering a location\<close>

definition Location_String :: "Location \<Rightarrow> string" where
  "Location_String l =
     (let ret0 = ''<Location>'' in
      if l = Location_zero then ret0 @ '' Empty Location''
      else
        let ret1 = (if City l \<noteq> '''' then ret0 @ '' '' @ City l @ '','' else ret0);
            ret2 = (if Province l \<noteq> '''' then ret1 @ '' '' @ Province l @ '','' else ret1);
            ret3 = (if Country l \<noteq> '''' then ret2 @ '' '' @ Country l
                    else if CountryLong l \<noteq> '''' then ret2 @ '' '' @ CountryLong l
                    else ret2);
            ret4 = (if CountryCode3 l \<noteq> '''' then ret3 @ '' ('' @ CountryCode3 l @ '')''
                    else if CountryCode2 l \<noteq> '''' then ret3 @ '' ('' @ CountryCode2 l @ '')''
                    else ret3);
            ret5 = (if length ret4 > length ''<Location>'' then ret4 @ '','' else ret4)
        in
          if Continent l \<noteq> '''' then ret5 @ '' '' @ Continent l
          else if Region l \<noteq> '''' then ret5 @ '' '' @ Region l
          else if SubRegion l \<noteq> '''' then ret5 @ '' '' @ SubRegion l
          else ret5)"

section \<open>Reading the properties of a feature\<close>

text \<open>
  The type assertion \<open>m[k].(string)\<close>: the string and \<open>true\<close> when the value is a
  string, the empty string and \<open>false\<close> otherwise (also for a missing key).
\<close>

fun assert_string :: "'f jvalue option \<Rightarrow> string \<times> bool" where
  "assert_string (Some (JString v)) = (v, True)"
| "assert_string _ = ('''', False)"

fun getPropertyString_loop :: "'f properties \<Rightarrow> string list \<Rightarrow> string \<Rightarrow> string" where
  "getPropertyString_loop m [] s = s"
| "getPropertyString_loop m (k # keys) s =
     (case assert_string (m k) of
        (s', ok) \<Rightarrow> if ok then s' else getPropertyString_loop m keys s')"

definition getPropertyString :: "'f properties \<Rightarrow> string list \<Rightarrow> string" where
  "getPropertyString m keys = getPropertyString_loop m keys ''''"

text \<open>\<open>strings.TrimSuffix\<close>.\<close>

definition TrimSuffix :: "string \<Rightarrow> string \<Rightarrow> string" where
  "TrimSuffix s suffix =
     (if length suffix \<le> length s \<and> drop (length s - length suffix) s = suffix
      then take (length s - length suffix) s else s)"

definition getLocationStrings :: "'f properties \<Rightarrow> Location" where
  "getLocationStrings p =
     (let loc =
        \<lparr>Country = getPropertyString p [''ADMIN'', ''admin''],
         CountryLong = getPropertyString p [''FORMAL_EN''],
         CountryCode2 = getPropertyString p [''ISO_A2''],
         CountryCode3 = getPropertyString p [''ISO_A3''],
         Continent = getPropertyString p [''CONTINENT''],
         Region = getPropertyString p [''REGION_UN''],
         SubRegion = getPropertyString p [''SUBREGION''],
         Province = getPropertyString p [''name''],
         ProvinceCode = getPropertyString p [''iso_3166_2''],
         County = '''',
         City = TrimSuffix (getPropertyString p [''name_conve'']) ''2''\<rparr>
      in if p ''TYPE'' = Some (JString ''County'')
         then loc\<lparr>County := getPropertyString p [''NAME'']\<rparr>
         else loc)"

section \<open>Floating-point numbers\<close>

text \<open>
  A \<open>float64\<close> value: a finite number (the real it denotes), an infinity or a NaN. The
  sign of a zero is not kept: no operation of the package tells the two zeros apart.
  \<open>f64_gt x y\<close> is Go's \<open>x > y\<close>: false whenever an operand is a NaN.
\<close>

datatype float64 = F64 real | PosInf | NegInf | NaN

fun f64_gt :: "float64 \<Rightarrow> float64 \<Rightarrow> bool" where
  "f64_gt NaN y = False"
| "f64_gt x NaN = False"
| "f64_gt (F64 a) (F64 b) = (b < a)"
| "f64_gt x PosInf = False"
| "f64_gt NegInf y = False"
| "f64_gt PosInf y = True"
| "f64_gt x NegInf = True"







section \<open>The libraries the package calls\<close>

text \<open>
  The package builds on \<open>orb\<close> (planar geometry) and \<open>s2\<close> (spherical geometry and the
  shape index). Their functions are parameters of the model, with the types of
  latitude/longitude pairs \<open>'ll\<close>, points on the sphere \<open>'pt\<close>, loops \<open>'loop\<close> and
  polygons \<open>'poly\<close> left open:
  \<^item> \<open>Equal\<close> is \<open>orb.Point.Equal\<close>, \<open>Orientation\<close> is \<open>orb.Ring.Orientation\<close>;
  \<^item> \<open>CapRadiusDegrees l\<close> is the \<open>float64\<close> that \<open>l.CapBound().Radius().Degrees()\<close>
    returns;
  \<^item> \<open>Invert\<close> gives the loop that \<open>l.Invert()\<close> leaves in \<open>l\<close>;
  \<^item> \<open>ContainingShapes idx pt\<close> is the answer of the \<open>ContainsPointQuery\<close> (open
    vertex model) built over the index \<open>idx\<close>.
\<close>

record ('f, 'll, 'pt, 'loop, 'poly) geo_lib =
  Equal :: "'f point \<Rightarrow> 'f point \<Rightarrow> bool"
  Orientation :: "'f ring \<Rightarrow> int"
  LatLngFromDegrees :: "'f \<Rightarrow> 'f \<Rightarrow> 'll"
  PointFromLatLng :: "'ll \<Rightarrow> 'pt"
  LoopFromPoints :: "'pt list \<Rightarrow> 'loop"
  CapRadiusDegrees :: "'loop \<Rightarrow> float64"
  Invert :: "'loop \<Rightarrow> 'loop"
  PolygonFromLoops :: "'loop list \<Rightarrow> 'poly"
  ContainingShapes :: "(shape \<times> 'poly) list \<Rightarrow> 'pt \<Rightarrow> shape list"

text \<open>
  Decompression and decoding: \<open>gzip.NewReader\<close> on the payload, the JSON decoder on
  the reader, and the reader's \<open>Close\<close>, each with the error type \<open>'e\<close> of the
  library.
\<close>

record 'f feature =
  fGeometry :: "'f geometry"
  fProperties :: "'f properties"

type_synonym byte = "8 word"

record ('f, 'zr, 'e) codec =
  gzipNewReader :: "byte list \<Rightarrow> 'e + 'zr"
  jsonDecode :: "'zr \<Rightarrow> 'e + 'f feature list"
  zrClose :: "'zr \<Rightarrow> 'e option"

section \<open>Normalizing geometry\<close>

datatype 'f geom_error =
    TooFewPoints
  | LastNotFirst "'f polygon"
  | NeedsPolygon
  | PanicMakeslice

definition pointFromCoord :: "('f, 'll, 'pt, 'loop, 'poly) geo_lib \<Rightarrow> 'f point \<Rightarrow> 'pt" where
  "pointFromCoord lib r = PointFromLatLng lib (LatLngFromDegrees lib (snd r) (fst r))"

definition isClockwise :: "('f, 'll, 'pt, 'loop, 'poly) geo_lib \<Rightarrow> 'f ring \<Rightarrow> bool" where
  "isClockwise lib r = (Orientation lib r = - 1)"

text \<open>
  \<open>loopFromRing\<close>: the slice \<open>pts\<close> that its loop fills (index \<open>i\<close> runs over
  \<open>0 .. n-2\<close>, so both \<open>r[i]\<close> and \<open>r[n-1-i]\<close> are in range), and the call itself.
  On the empty ring \<open>make([]s2.Point, n-1)\<close> panics: the result \<open>None\<close>.
\<close>

definition loopFromRing_pts :: "('f, 'll, 'pt, 'loop, 'poly) geo_lib \<Rightarrow> 'f ring \<Rightarrow> bool \<Rightarrow> 'pt list" where
  "loopFromRing_pts lib r reverse =
     (let n = length r in
      map (\<lambda>i. pointFromCoord lib (if reverse then r ! (n - 1 - i) else r ! i)) [0..<n - 1])"

definition loopFromRing :: "('f, 'll, 'pt, 'loop, 'poly) geo_lib \<Rightarrow> 'f ring \<Rightarrow> bool \<Rightarrow> 'loop option" where
  "loopFromRing lib r reverse =
     (if length r = 0 then None
      else Some (LoopFromPoints lib (loopFromRing_pts lib r reverse)))"

text \<open>
  The loop of \<open>loopSliceFromPolygon\<close> over the rings still to do, with the loops
  collected so far; \<open>p\<close> is the whole polygon, which the unclosed-ring error prints.
\<close>

fun loopSlice_loop ::
  "('f, 'll, 'pt, 'loop, 'poly) geo_lib \<Rightarrow> 'f polygon \<Rightarrow> 'f ring list \<Rightarrow> 'loop list
     \<Rightarrow> 'f geom_error + 'loop list" where
  "loopSlice_loop lib p [] loops = Inr loops"
| "loopSlice_loop lib p (r # rs) loops =
     (let n = length r in
      if n < 4 then Inl TooFewPoints
      else if \<not> Equal lib (r ! 0) (r ! (n - 1)) then Inl (LastNotFirst p)
      else
        let reverse = isClockwise lib r in
        case loopFromRing lib r reverse of
          None \<Rightarrow> Inl PanicMakeslice
        | Some l \<Rightarrow>
            let l' = (if f64_gt (CapRadiusDegrees lib l) (F64 90) then Invert lib l else l)
            in loopSlice_loop lib p rs (loops @ [l']))"

text \<open>The Go result pair: the loops (the nil slice is \<open>[]\<close>) and the error, if any.\<close>

definition loopSliceFromPolygon ::
  "('f, 'll, 'pt, 'loop, 'poly) geo_lib \<Rightarrow> 'f polygon \<Rightarrow> 'loop list \<times> 'f geom_error option" where
  "loopSliceFromPolygon lib p =
     (case loopSlice_loop lib p p [] of
        Inl err \<Rightarrow> ([], Some err)
      | Inr loops \<Rightarrow> (loops, None))"

definition polygonFromPolygon ::
  "('f, 'll, 'pt, 'loop, 'poly) geo_lib \<Rightarrow> 'f polygon \<Rightarrow> 'poly \<times> 'f geom_error option" where
  "polygonFromPolygon lib p =
     (case loopSliceFromPolygon lib p of (loops, err) \<Rightarrow> (PolygonFromLoops lib loops, err))"

fun polygonFromMultiPolygon_loop ::
  "('f, 'll, 'pt, 'loop, 'poly) geo_lib \<Rightarrow> 'f polygon list \<Rightarrow> 'loop list \<Rightarrow> 'f geom_error + 'poly" where
  "polygonFromMultiPolygon_loop lib [] loops = Inr (PolygonFromLoops lib loops)"
| "polygonFromMultiPolygon_loop lib (q # qs) loops =
     (case loopSliceFromPolygon lib q of
        (this, Some err) \<Rightarrow> Inl err
      | (this, None) \<Rightarrow> polygonFromMultiPolygon_loop lib qs (loops @ this))"

definition polygonFromMultiPolygon ::
  "('f, 'll, 'pt, 'loop, 'poly) geo_lib \<Rightarrow> 'f polygon list \<Rightarrow> 'f geom_error + 'poly" where
  "polygonFromMultiPolygon lib p = polygonFromMultiPolygon_loop lib p []"

text \<open>
  \<open>polygonFromGeometry\<close> returns either a polygon and no error, or the error and no
  polygon: a sum.
\<close>

definition polygonFromGeometry ::
  "('f, 'll, 'pt, 'loop, 'poly) geo_lib \<Rightarrow> 'f geometry \<Rightarrow> 'f geom_error + 'poly" where
  "polygonFromGeometry lib g =
     (case g of
        Polygon t \<Rightarrow>
          (case polygonFromPolygon lib t of
             (polygon, Some err) \<Rightarrow> Inl err
           | (polygon, None) \<Rightarrow> Inr polygon)
      | MultiPolygon t \<Rightarrow> polygonFromMultiPolygon lib t
      | OtherGeometry \<Rightarrow> Inl NeedsPolygon)"

section \<open>The winding test of the earlier revision\<close>




section \<open>The engine\<close>

text \<open>
  The state of an engine: the shapes of the index in the order they were added, each
  with its polygon; the location of each shape; and per dataset name the geometry of
  each of its shapes. The query of the source is a view of the index.
\<close>

record ('f, 'poly) Rgeo =
  index :: "(shape \<times> 'poly) list"
  locs :: "shape \<rightharpoonup> Location"
  geoms :: "string \<rightharpoonup> (shape \<rightharpoonup> 'f geometry)"

text \<open>
  A dataset of \<open>New\<close> is a function returning bytes; the model keeps what \<open>New\<close> reads
  of it: the name \<open>getFunctionName\<close> derives from it and the bytes it returns.
\<close>

record loader =
  lname :: string
  payload :: "byte list"

datatype ('f, 'e) new_error =
    NoData nat
  | DecompressionFailed nat 'e
  | InvalidJSON nat 'e
  | CloseFailed nat 'e
  | BadPolygon "'f geom_error"
  | PanicNilMap

text \<open>
  The loop over the features of one dataset. The polygon just built is a new object:
  its identity is the number of shapes added before it.
\<close>

fun features_loop ::
  "('f, 'll, 'pt, 'loop, 'poly) geo_lib \<Rightarrow> string \<Rightarrow> 'f feature list \<Rightarrow> ('f, 'poly) Rgeo
     \<Rightarrow> ('f, 'e) new_error + ('f, 'poly) Rgeo" where
  "features_loop lib datasetName [] ret = Inr ret"
| "features_loop lib datasetName (c # cs) ret =
     (case polygonFromGeometry lib (fGeometry c) of
        Inl err \<Rightarrow> Inl (BadPolygon err)
      | Inr polygon \<Rightarrow>
          let p = length (index ret) in
          (case geoms ret datasetName of
             None \<Rightarrow> Inl PanicNilMap
           | Some shpGeoms \<Rightarrow>
               features_loop lib datasetName cs
                 (ret\<lparr>geoms := (geoms ret)(datasetName \<mapsto> shpGeoms(p \<mapsto> fGeometry c)),
                      index := index ret @ [(p, polygon)],
                      locs := (locs ret)(p \<mapsto> getLocationStrings (fProperties c))\<rparr>)))"

text \<open>
  The lookup of the dataset's name in \<open>geoms\<close>, which adds an empty map for a name not
  seen before.
\<close>

definition register_dataset :: "string \<Rightarrow> ('f, 'poly) Rgeo \<Rightarrow> ('f, 'poly) Rgeo" where
  "register_dataset datasetName ret =
     (case geoms ret datasetName of
        None \<Rightarrow> ret\<lparr>geoms := (geoms ret)(datasetName \<mapsto> Map.empty)\<rparr>
      | Some shpGeoms \<Rightarrow> ret)"

text \<open>
  The loop over the datasets, \<open>i\<close> being the index of the first one still to do. The
  collection \<open>fc\<close> that the source appends every dataset's features to is never read
  and is left out.
\<close>

fun New_loop ::
  "('f, 'll, 'pt, 'loop, 'poly) geo_lib \<Rightarrow> ('f, 'zr, 'e) codec \<Rightarrow> nat \<Rightarrow> loader list
     \<Rightarrow> ('f, 'poly) Rgeo \<Rightarrow> ('f, 'e) new_error + ('f, 'poly) Rgeo" where
  "New_loop lib cod i [] ret = Inr ret"
| "New_loop lib cod i (dataset # datasets) ret =
     (if length (payload dataset) = 0 then Inl (NoData i)
      else
        case gzipNewReader cod (payload dataset) of
          Inl err \<Rightarrow> Inl (DecompressionFailed i err)
        | Inr zr \<Rightarrow>
           (case jsonDecode cod zr of
              Inl err \<Rightarrow> Inl (InvalidJSON i err)
            | Inr tfc \<Rightarrow>
               (case zrClose cod zr of
                  Some err \<Rightarrow> Inl (CloseFailed i err)
                | None \<Rightarrow>
                    let datasetName = lname dataset;
                        ret1 = register_dataset datasetName ret
                    in (case features_loop lib datasetName tfc ret1 of
                          Inl err \<Rightarrow> Inl err
                        | Inr ret2 \<Rightarrow> New_loop lib cod (Suc i) datasets ret2))))"

definition Rgeo_init :: "('f, 'poly) Rgeo" where
  "Rgeo_init = \<lparr>index = [], locs = Map.empty, geoms = Map.empty\<rparr>"

text \<open>The Go result pair of \<open>New\<close>: the engine (\<open>None\<close> is nil) and the error, if any.\<close>

definition New ::
  "('f, 'll, 'pt, 'loop, 'poly) geo_lib \<Rightarrow> ('f, 'zr, 'e) codec \<Rightarrow> loader list
     \<Rightarrow> ('f, 'poly) Rgeo option \<times> ('f, 'e) new_error option" where
  "New lib cod datasets =
     (case New_loop lib cod 0 datasets Rgeo_init of
        Inl err \<Rightarrow> (None, Some err)
      | Inr ret \<Rightarrow> (Some ret, None))"

section \<open>Queries\<close>

datatype query_error =
    ErrLocationNotFound
  | MissingParameter
  | DatasetNotFound string
  | NoGeometryFound string

definition ReverseGeocode ::
  "('f, 'll, 'pt, 'loop, 'poly) geo_lib \<Rightarrow> ('f, 'poly) Rgeo \<Rightarrow> 'f point
     \<Rightarrow> Location \<times> query_error option" where
  "ReverseGeocode lib r loc =
     (let res = ContainingShapes lib (index r) (pointFromCoord lib loc) in
      if length res = 0 then (Location_zero, Some ErrLocationNotFound)
      else (combineLocations (locs r) res, None))"

text \<open>
  The loop of \<open>ReverseGeocodeWithGeometry\<close> over the matching shapes: the first one
  with a geometry in the dataset ends it.
\<close>

fun geometry_loop ::
  "(shape \<rightharpoonup> 'f geometry) \<Rightarrow> shape list \<Rightarrow> 'f LocationWithGeometry \<Rightarrow> string
     \<Rightarrow> 'f LocationWithGeometry \<times> query_error option" where
  "geometry_loop shpGeom [] out dataset =
     (LocationWithGeometry_zero, Some (NoGeometryFound dataset))"
| "geometry_loop shpGeom (shp # res) out dataset =
     (case shpGeom shp of
        Some geom \<Rightarrow> (out\<lparr>Geometry := Some geom\<rparr>, None)
      | None \<Rightarrow> geometry_loop shpGeom res out dataset)"

definition ReverseGeocodeWithGeometry ::
  "('f, 'll, 'pt, 'loop, 'poly) geo_lib \<Rightarrow> ('f, 'poly) Rgeo \<Rightarrow> 'f point \<Rightarrow> string
     \<Rightarrow> 'f LocationWithGeometry \<times> query_error option" where
  "ReverseGeocodeWithGeometry lib r loc dataset =
     (let res = ContainingShapes lib (index r) (pointFromCoord lib loc) in
      if length res = 0 then (LocationWithGeometry_zero, Some ErrLocationNotFound)
      else if dataset = '''' then (LocationWithGeometry_zero, Some MissingParameter)
      else
        case geoms r dataset of
          None \<Rightarrow> (LocationWithGeometry_zero, Some (DatasetNotFound dataset))
        | Some shpGeom \<Rightarrow>
            let out = \<lparr>Loc = combineLocations (locs r) res, Geometry = None\<rparr>
            in geometry_loop shpGeom res out dataset)"

section \<open>Vocabulary of the properties\<close>

text \<open>
  The first non-empty value of a field \<open>f\<close> across a list of locations, and the empty
  string when no location has one.
\<close>

definition first_set :: "(Location \<Rightarrow> string) \<Rightarrow> Location list \<Rightarrow> string" where
  "first_set f ls = (case filter (\<lambda>v. v \<noteq> '''') (map f ls) of [] \<Rightarrow> '''' | v # _ \<Rightarrow> v)"

definition Location_fields :: "(Location \<Rightarrow> string) list" where
  "Location_fields =
     [Country, CountryLong, CountryCode2, CountryCode3, Continent, Region, SubRegion,
      Province, ProvinceCode, County, City]"

text \<open>
  The string a property value holds, if it is a string; and the properties with every
  entry that is not a string removed.
\<close>

fun string_of :: "'f jvalue option \<Rightarrow> string option" where
  "string_of (Some (JString v)) = Some v"
| "string_of _ = None"

definition strings_only :: "'f properties \<Rightarrow> 'f properties" where
  "strings_only m k = (case m k of Some (JString v) \<Rightarrow> Some (JString v) | _ \<Rightarrow> None)"

text \<open>
  A ring that passes the two checks of \<open>loopSliceFromPolygon\<close>, and the loop such a
  ring contributes to the result.
\<close>

definition ring_ok :: "('f, 'll, 'pt, 'loop, 'poly) geo_lib \<Rightarrow> 'f ring \<Rightarrow> bool" where
  "ring_ok lib r = (4 \<le> length r \<and> Equal lib (r ! 0) (r ! (length r - 1)))"

definition ring_loop :: "('f, 'll, 'pt, 'loop, 'poly) geo_lib \<Rightarrow> 'f ring \<Rightarrow> 'loop" where
  "ring_loop lib r =
     (let l = LoopFromPoints lib (loopFromRing_pts lib r (isClockwise lib r))
      in if f64_gt (CapRadiusDegrees lib l) (F64 90) then Invert lib l else l)"

text \<open>
  A geometry is well-formed when it is a polygon or a multi-polygon and each of its
  rings has at least 4 points and is closed. Its loops are the loops of its rings, in
  order. The error of a polygon is that of its first ring that is not well-formed (too
  few points when the ring has fewer than 4, unclosed otherwise); the error of a
  geometry is that of its first polygon with such a ring, or that of its kind when it
  is neither a polygon nor a multi-polygon.
\<close>

definition geometry_ok :: "('f, 'll, 'pt, 'loop, 'poly) geo_lib \<Rightarrow> 'f geometry \<Rightarrow> bool" where
  "geometry_ok lib g =
     (case g of
        Polygon p \<Rightarrow> list_all (ring_ok lib) p
      | MultiPolygon ps \<Rightarrow> list_all (list_all (ring_ok lib)) ps
      | OtherGeometry \<Rightarrow> False)"

definition geometry_loops :: "('f, 'll, 'pt, 'loop, 'poly) geo_lib \<Rightarrow> 'f geometry \<Rightarrow> 'loop list" where
  "geometry_loops lib g =
     (case g of
        Polygon p \<Rightarrow> map (ring_loop lib) p
      | MultiPolygon ps \<Rightarrow> concat (map (map (ring_loop lib)) ps)
      | OtherGeometry \<Rightarrow> [])"

definition polygon_error :: "('f, 'll, 'pt, 'loop, 'poly) geo_lib \<Rightarrow> 'f polygon \<Rightarrow> 'f geom_error option" where
  "polygon_error lib p =
     (case find (\<lambda>r. \<not> ring_ok lib r) p of
        None \<Rightarrow> None
      | Some r \<Rightarrow> Some (if length r < 4 then TooFewPoints else LastNotFirst p))"

definition geometry_error :: "('f, 'll, 'pt, 'loop, 'poly) geo_lib \<Rightarrow> 'f geometry \<Rightarrow> 'f geom_error option" where
  "geometry_error lib g =
     (case g of
        Polygon p \<Rightarrow> polygon_error lib p
      | MultiPolygon ps \<Rightarrow>
          (case find (\<lambda>p. \<not> list_all (ring_ok lib) p) ps of
             None \<Rightarrow> None
           | Some p \<Rightarrow> polygon_error lib p)
      | OtherGeometry \<Rightarrow> Some NeedsPolygon)"

text \<open>
  What \<open>New\<close> reads of a dataset: its decoded features when the payload is not empty,
  decompresses, decodes and its reader closes, and nothing otherwise. A feature is
  ingestible when its geometry is well-formed; a dataset is when it decodes and all
  its features are. \<open>all_features\<close> lists the features of all datasets in order, each
  with its dataset's name.
\<close>

definition loader_features :: "('f, 'zr, 'e) codec \<Rightarrow> loader \<Rightarrow> 'f feature list option" where
  "loader_features cod d =
     (if payload d = [] then None
      else case gzipNewReader cod (payload d) of
             Inl err \<Rightarrow> None
           | Inr zr \<Rightarrow>
              (case jsonDecode cod zr of
                 Inl err \<Rightarrow> None
               | Inr tfc \<Rightarrow> (case zrClose cod zr of Some err \<Rightarrow> None | None \<Rightarrow> Some tfc)))"

definition feature_ok :: "('f, 'll, 'pt, 'loop, 'poly) geo_lib \<Rightarrow> 'f feature \<Rightarrow> bool" where
  "feature_ok lib c = geometry_ok lib (fGeometry c)"

definition loader_ok ::
  "('f, 'll, 'pt, 'loop, 'poly) geo_lib \<Rightarrow> ('f, 'zr, 'e) codec \<Rightarrow> loader \<Rightarrow> bool" where
  "loader_ok lib cod d =
     (case loader_features cod d of None \<Rightarrow> False | Some tfc \<Rightarrow> list_all (feature_ok lib) tfc)"

definition all_features :: "('f, 'zr, 'e) codec \<Rightarrow> loader list \<Rightarrow> (string \<times> 'f feature) list" where
  "all_features cod ds =
     concat (map (\<lambda>d. case loader_features cod d of
                          None \<Rightarrow> []
                        | Some tfc \<Rightarrow> map (Pair (lname d)) tfc) ds)"

text \<open>
  An engine holds exactly the features \<open>fs\<close>: the \<open>k\<close>-th shape of the index is shape
  \<open>k\<close> with the polygon made of the loops of the \<open>k\<close>-th feature's geometry, its
  location is the one read from that feature's properties, and its geometry is stored
  under the feature's dataset name.
\<close>

definition ingested ::
  "('f, 'll, 'pt, 'loop, 'poly) geo_lib \<Rightarrow> (string \<times> 'f feature) list \<Rightarrow> ('f, 'poly) Rgeo \<Rightarrow> bool" where
  "ingested lib fs eng =
     (length (index eng) = length fs \<and>
      list_all
        (\<lambda>k. fst (index eng ! k) = k \<and>
             snd (index eng ! k) =
               PolygonFromLoops lib (geometry_loops lib (fGeometry (snd (fs ! k)))) \<and>
             locs eng k = Some (getLocationStrings (fProperties (snd (fs ! k)))) \<and>
             (case geoms eng (fst (fs ! k)) of
                None \<Rightarrow> False
              | Some g \<Rightarrow> g k = Some (fGeometry (snd (fs ! k)))))
        [0..<length fs])"











section \<open>A small instance to run the model on\<close>

text \<open>
  Integer coordinates in place of \<open>float64\<close>, a loop as its list of points, a polygon
  as its list of loops; a polygon contains a point that lies strictly inside the
  bounding box of one of its loops, and the radius of a loop's cap is half the span of
  its longitudes. The instance is a stand-in for the libraries: it only serves to
  evaluate the functions above on concrete inputs.
\<close>

definition grid_span :: "(int \<times> int) list \<Rightarrow> int" where
  "grid_span l =
     (case l of
        [] \<Rightarrow> 0
      | a # as \<Rightarrow> fold max (map snd as) (snd a) - fold min (map snd as) (snd a))"

definition grid_inside :: "int \<times> int \<Rightarrow> (int \<times> int) list \<Rightarrow> bool" where
  "grid_inside pt l =
     (list_ex (\<lambda>a. fst a < fst pt) l \<and> list_ex (\<lambda>a. fst pt < fst a) l \<and>
      list_ex (\<lambda>a. snd a < snd pt) l \<and> list_ex (\<lambda>a. snd pt < snd a) l)"

fun grid_area2 :: "(int \<times> int) list \<Rightarrow> int" where
  "grid_area2 (a # b # r) = (fst a * snd b - fst b * snd a) + grid_area2 (b # r)"
| "grid_area2 _ = 0"

definition grid_lib ::
  "(int, int \<times> int, int \<times> int, (int \<times> int) list, (int \<times> int) list list) geo_lib" where
  "grid_lib =
     \<lparr>Equal = (\<lambda>p q. p = q),
      Orientation = (\<lambda>r. sgn (grid_area2 r)),
      LatLngFromDegrees = (\<lambda>lat lng. (lat, lng)),
      PointFromLatLng = (\<lambda>ll. ll),
      LoopFromPoints = (\<lambda>pts. pts),
      CapRadiusDegrees = (\<lambda>l. F64 (real_of_int (grid_span l) / 2)),
      Invert = rev,
      PolygonFromLoops = (\<lambda>loops. loops),
      ContainingShapes = (\<lambda>idx pt. map fst (filter (\<lambda>e. list_ex (grid_inside pt) (snd e)) idx))\<rparr>"

definition demo_country :: Location where
  "demo_country = Location_zero\<lparr>Country := ''Testland'', CountryCode3 := ''TST'', Continent := ''Asia''\<rparr>"

definition demo_province :: Location where
  "demo_province = Location_zero\<lparr>Country := ''Other'', Province := ''North''\<rparr>"

definition demo_country_geoms :: "shape \<rightharpoonup> int geometry" where
  "demo_country_geoms = [0 \<mapsto> Polygon [[(0, 0), (10, 0), (10, 10), (0, 10), (0, 0)]]]"

definition demo_province_geoms :: "shape \<rightharpoonup> int geometry" where
  "demo_province_geoms = [1 \<mapsto> Polygon [[(2, 2), (8, 2), (8, 8), (2, 8), (2, 2)]]]"

definition demo_engine :: "(int, (int \<times> int) list list) Rgeo" where
  "demo_engine =
     \<lparr>index = [(0, [[(0, 0), (0, 10), (10, 10), (10, 0)]]), (1, [[(2, 2), (2, 8), (8, 8), (8, 2)]])],
      locs = [0 \<mapsto> demo_country, 1 \<mapsto> demo_province],
      geoms = [''countries'' \<mapsto> demo_country_geoms,
               ''provinces'' \<mapsto> demo_province_geoms,
               ''cities'' \<mapsto> Map.empty]\<rparr>"

definition demo_properties :: "int properties" where
  "demo_properties = [''ADMIN'' \<mapsto> JNumber 3, ''admin'' \<mapsto> JString ''Testland'', ''ISO_A3'' \<mapsto> JBool True]"

definition demo_ring :: "int ring" where
  "demo_ring = [(0, 0), (10, 0), (10, 10), (0, 10), (0, 0)]"

definition demo_cw_ring :: "int ring" where
  "demo_cw_ring = [(0, 0), (0, 10), (10, 10), (10, 0), (0, 0)]"

definition demo_wide_ring :: "int ring" where
  "demo_wide_ring = [(- 100, 0), (100, 0), (100, 10), (- 100, 10), (- 100, 0)]"

definition demo_half_ring :: "int ring" where
  "demo_half_ring = [(- 90, 0), (90, 0), (90, 10), (- 90, 10), (- 90, 0)]"

definition demo_open_ring :: "int ring" where
  "demo_open_ring = [(0, 0), (1, 0), (1, 1), (0, 1)]"

definition demo_feature :: "byte \<Rightarrow> int feature" where
  "demo_feature b =
     \<lparr>fGeometry = (if b = 1 then Polygon [demo_ring]
                   else if b = 2 then Polygon [demo_open_ring]
                   else if b = 4 then MultiPolygon [[demo_ring], [[(0, 0), (1, 1)]]]
                   else if b = 5 then MultiPolygon [[demo_ring], [demo_cw_ring]]
                   else OtherGeometry),
      fProperties = [''ADMIN'' \<mapsto> JString ''Testland'', ''ISO_A3'' \<mapsto> JString ''TST'']\<rparr>"

definition demo_codec :: "(int, byte list, string) codec" where
  "demo_codec =
     \<lparr>gzipNewReader = (\<lambda>bs. case bs of
                                [] \<Rightarrow> Inl ''unexpected EOF''
                              | b # rest \<Rightarrow> if b = 31 then Inr rest else Inl ''gzip: invalid header''),
      jsonDecode = (\<lambda>zr. if list_ex (\<lambda>b. b = 255) zr then Inl ''invalid character''
                          else Inr (map demo_feature zr)),
      zrClose = (\<lambda>zr. None)\<rparr>"

definition demo_good :: loader where
  "demo_good = \<lparr>lname = ''rgeo.Countries110'', payload = [31, 1]\<rparr>"

definition demo_loader :: "byte list \<Rightarrow> loader" where
  "demo_loader bs = \<lparr>lname = ''rgeo.Provinces10'', payload = bs\<rparr>"




section \<open>Properties\<close>

subsection \<open>Merging the matched locations\<close>

lemma first_set_Nil: "first_set f [] = ''''"
  by (simp add: first_set_def)

lemma first_set_Cons: "first_set f (l # ls) = firstNonEmpty [f l, first_set f ls]"
  by (simp add: first_set_def)

lemma firstNonEmpty_assoc:
  "firstNonEmpty [firstNonEmpty [a, b], c] = firstNonEmpty [a, firstNonEmpty [b, c]]"
  by simp

lemma firstNonEmpty_right_empty: "firstNonEmpty [a, ''''] = a"
  by simp

lemma firstNonEmpty_left_empty: "firstNonEmpty ['''', a] = a"
  by simp

lemma combineLocations_loop_fields:
  "combineLocations_loop m s l =
     \<lparr>Country = firstNonEmpty [Country l, first_set Country (map (locs_at m) s)],
      CountryLong = firstNonEmpty [CountryLong l, first_set CountryLong (map (locs_at m) s)],
      CountryCode2 = firstNonEmpty [CountryCode2 l, first_set CountryCode2 (map (locs_at m) s)],
      CountryCode3 = firstNonEmpty [CountryCode3 l, first_set CountryCode3 (map (locs_at m) s)],
      Continent = firstNonEmpty [Continent l, first_set Continent (map (locs_at m) s)],
      Region = firstNonEmpty [Region l, first_set Region (map (locs_at m) s)],
      SubRegion = firstNonEmpty [SubRegion l, first_set SubRegion (map (locs_at m) s)],
      Province = firstNonEmpty [Province l, first_set Province (map (locs_at m) s)],
      ProvinceCode = firstNonEmpty [ProvinceCode l, first_set ProvinceCode (map (locs_at m) s)],
      County = firstNonEmpty [County l, first_set County (map (locs_at m) s)],
      City = firstNonEmpty [City l, first_set City (map (locs_at m) s)]\<rparr>"
proof (induction s arbitrary: l)
  case Nil
  show ?case by (simp add: first_set_Nil firstNonEmpty_right_empty del: firstNonEmpty.simps)
next
  case (Cons sh s)
  show ?case
    unfolding combineLocations_loop.simps Cons.IH
    by (simp add: first_set_Cons combine_step_def firstNonEmpty_assoc del: firstNonEmpty.simps)
qed

lemma combineLocations_fields:
  "combineLocations m s =
     \<lparr>Country = first_set Country (map (locs_at m) s),
      CountryLong = first_set CountryLong (map (locs_at m) s),
      CountryCode2 = first_set CountryCode2 (map (locs_at m) s),
      CountryCode3 = first_set CountryCode3 (map (locs_at m) s),
      Continent = first_set Continent (map (locs_at m) s),
      Region = first_set Region (map (locs_at m) s),
      SubRegion = first_set SubRegion (map (locs_at m) s),
      Province = first_set Province (map (locs_at m) s),
      ProvinceCode = first_set ProvinceCode (map (locs_at m) s),
      County = first_set County (map (locs_at m) s),
      City = first_set City (map (locs_at m) s)\<rparr>"
  unfolding combineLocations_def combineLocations_loop_fields
  by (simp add: Location_zero_def firstNonEmpty_left_empty del: firstNonEmpty.simps)

lemma combineLocations_single: "combineLocations m [sh] = locs_at m sh"
  unfolding combineLocations_fields
  by (simp add: first_set_Cons first_set_Nil firstNonEmpty_right_empty del: firstNonEmpty.simps)

lemma first_set_append:
  "first_set f (xs @ ys) = firstNonEmpty [first_set f xs, first_set f ys]"
  by (induction xs) (simp_all add: first_set_Cons first_set_Nil)


lemma demo_query_inner:
  "ContainingShapes grid_lib (index demo_engine) (pointFromCoord grid_lib (5, 5)) = [0, 1]"
  by (simp add: grid_lib_def demo_engine_def pointFromCoord_def grid_inside_def)

lemma demo_query_none:
  "ContainingShapes grid_lib (index demo_engine) (pointFromCoord grid_lib (20, 20)) = []"
  by (simp add: grid_lib_def demo_engine_def pointFromCoord_def grid_inside_def)

lemma field_of_combineLocations:
  "f \<in> set Location_fields \<Longrightarrow> f (combineLocations m s) = first_set f (map (locs_at m) s)"
  unfolding combineLocations_fields Location_fields_def
  by auto

text \<open>
  Claim C1. When the index query at a point returns a non-empty list of shapes,
  \<open>ReverseGeocode\<close> returns no error and the location whose every field is the first
  non-empty value of that field across the locations of the matched shapes, taken in
  the order of the query result. With exactly one match the result is that shape's
  location unchanged. A field that is non-empty after any prefix of the matches keeps
  that value in the final result.
\<close>

theorem ReverseGeocode_left_biased_merge:
  assumes res: "ContainingShapes lib (index r) (pointFromCoord lib loc) = res"
    and ne: "res \<noteq> []"
  shows "ReverseGeocode lib r loc =
           (\<lparr>Country = first_set Country (map (locs_at (locs r)) res),
             CountryLong = first_set CountryLong (map (locs_at (locs r)) res),
             CountryCode2 = first_set CountryCode2 (map (locs_at (locs r)) res),
             CountryCode3 = first_set CountryCode3 (map (locs_at (locs r)) res),
             Continent = first_set Continent (map (locs_at (locs r)) res),
             Region = first_set Region (map (locs_at (locs r)) res),
             SubRegion = first_set SubRegion (map (locs_at (locs r)) res),
             Province = first_set Province (map (locs_at (locs r)) res),
             ProvinceCode = first_set ProvinceCode (map (locs_at (locs r)) res),
             County = first_set County (map (locs_at (locs r)) res),
             City = first_set City (map (locs_at (locs r)) res)\<rparr>, None)
       \<and> (\<forall>sh. res = [sh] \<longrightarrow> ReverseGeocode lib r loc = (locs_at (locs r) sh, None))
       \<and> (\<forall>s1 s2. res = s1 @ s2 \<longrightarrow>
            (\<forall>f \<in> set Location_fields.
               f (combineLocations (locs r) s1) \<noteq> '''' \<longrightarrow>
               f (fst (ReverseGeocode lib r loc)) = f (combineLocations (locs r) s1)))"
proof -
  have run: "ReverseGeocode lib r loc = (combineLocations (locs r) res, None)"
    using res ne by (simp add: ReverseGeocode_def)
  have single: "\<forall>sh. res = [sh] \<longrightarrow> ReverseGeocode lib r loc = (locs_at (locs r) sh, None)"
    using run by (simp add: combineLocations_single)
  have keep: "f (combineLocations (locs r) (s1 @ s2)) = f (combineLocations (locs r) s1)"
    if "f \<in> set Location_fields" and "f (combineLocations (locs r) s1) \<noteq> ''''" for f s1 s2
    using that by (simp add: field_of_combineLocations first_set_append)
  show ?thesis
    using single keep by (simp add: run combineLocations_fields)
qed

theorem ReverseGeocode_left_biased_merge_witness:
  "ContainingShapes grid_lib (index demo_engine) (pointFromCoord grid_lib (5, 5)) = [0, 1]
   \<and> ReverseGeocode grid_lib demo_engine (5, 5) =
       (Location_zero\<lparr>Country := ''Testland'', CountryCode3 := ''TST'', Continent := ''Asia'',
          Province := ''North''\<rparr>, None)"
proof -
  have ne: "[0, 1] \<noteq> ([] :: shape list)" by simp
  have vals: "map (locs_at (locs demo_engine)) [0, 1] = [demo_country, demo_province]"
    by (simp add: demo_engine_def locs_at_def)
  have "ReverseGeocode grid_lib demo_engine (5, 5) =
       (Location_zero\<lparr>Country := ''Testland'', CountryCode3 := ''TST'', Continent := ''Asia'',
          Province := ''North''\<rparr>, None)"
    using ReverseGeocode_left_biased_merge [OF demo_query_inner ne, THEN conjunct1]
    unfolding vals
    by (simp add: first_set_def demo_country_def demo_province_def Location_zero_def)
  then show ?thesis
    using demo_query_inner by simp
qed

subsection \<open>Reading properties\<close>

lemma assert_string_of_None: "string_of x = None \<Longrightarrow> assert_string x = ('''', False)"
  by (cases x rule: string_of.cases) simp_all

lemma assert_string_of_Some: "string_of x = Some v \<Longrightarrow> assert_string x = (v, True)"
  by (cases x rule: string_of.cases) simp_all

lemma getPropertyString_loop_skip:
  "string_of (m k) = None \<Longrightarrow>
   getPropertyString_loop m (k # keys) s = getPropertyString_loop m keys ''''"
  by (simp add: assert_string_of_None)

lemma getPropertyString_loop_hit:
  "string_of (m k) = Some v \<Longrightarrow> getPropertyString_loop m (k # keys) s = v"
  by (simp add: assert_string_of_Some)

lemma getPropertyString_loop_none:
  "\<forall>k\<in>set keys. string_of (m k) = None \<Longrightarrow>
   getPropertyString_loop m keys s = (if keys = [] then s else '''')"
  by (induction keys arbitrary: s) (simp_all add: assert_string_of_None)

lemma getPropertyString_loop_first:
  "\<forall>k'\<in>set pre. string_of (m k') = None \<Longrightarrow> string_of (m k) = Some v \<Longrightarrow>
   getPropertyString_loop m (pre @ k # post) s = v"
  by (induction pre arbitrary: s) (simp_all add: assert_string_of_None assert_string_of_Some)

lemma assert_string_strings_only: "assert_string (strings_only m k) = assert_string (m k)"
  by (cases "m k" rule: string_of.cases) (simp_all add: strings_only_def)

lemma getPropertyString_loop_strings_only:
  "getPropertyString_loop (strings_only m) keys s = getPropertyString_loop m keys s"
  by (induction keys arbitrary: s) (simp_all add: assert_string_strings_only split: prod.splits)

text \<open>
  Claim C9. \<open>getPropertyString\<close> returns the value of the first candidate key whose
  value is a string: keys before it whose value is missing or not a string are passed
  over. When no candidate key holds a string the result is the empty string. Removing
  every non-string entry from the properties never changes the result, so a key with
  a number or a boolean counts exactly as an absent key.
\<close>

theorem getPropertyString_first_string_key:
  "(\<forall>pre k post v.
      keys = pre @ k # post \<and> (\<forall>k'\<in>set pre. string_of (m k') = None) \<and> string_of (m k) = Some v
      \<longrightarrow> getPropertyString m keys = v)
   \<and> ((\<forall>k\<in>set keys. string_of (m k) = None) \<longrightarrow> getPropertyString m keys = '''')
   \<and> getPropertyString (strings_only m) keys = getPropertyString m keys"
proof (intro conjI allI impI)
  fix pre k post v
  assume "keys = pre @ k # post \<and> (\<forall>k'\<in>set pre. string_of (m k') = None) \<and> string_of (m k) = Some v"
  then show "getPropertyString m keys = v"
    by (simp add: getPropertyString_def getPropertyString_loop_first)
next
  assume "\<forall>k\<in>set keys. string_of (m k) = None"
  then show "getPropertyString m keys = ''''"
    by (simp add: getPropertyString_def getPropertyString_loop_none)
next
  show "getPropertyString (strings_only m) keys = getPropertyString m keys"
    by (simp add: getPropertyString_def getPropertyString_loop_strings_only)
qed

theorem getPropertyString_first_string_key_witness:
  "string_of (demo_properties ''ADMIN'') = None
   \<and> string_of (demo_properties ''admin'') = Some ''Testland''
   \<and> getPropertyString demo_properties [''ADMIN'', ''admin''] = ''Testland''
   \<and> string_of (demo_properties ''ISO_A3'') = None
   \<and> getPropertyString demo_properties [''ISO_A3''] = ''''"
proof -
  have a: "string_of (demo_properties ''ADMIN'') = None"
    and b: "string_of (demo_properties ''admin'') = Some ''Testland''"
    and c: "string_of (demo_properties ''ISO_A3'') = None"
    by (simp_all add: demo_properties_def)
  have split: "[''ADMIN'', ''admin''] = [''ADMIN''] @ ''admin'' # []" by simp
  have skip: "\<forall>k'\<in>set [''ADMIN'']. string_of (demo_properties k') = None"
    using a by simp
  have only: "\<forall>k\<in>set [''ISO_A3'']. string_of (demo_properties k) = None"
    using c by simp
    have "getPropertyString demo_properties [''ADMIN'', ''admin''] = ''Testland''"
    using getPropertyString_first_string_key [of "[''ADMIN'', ''admin'']" demo_properties, THEN conjunct1] split skip b
    by blast
  moreover have "getPropertyString demo_properties [''ISO_A3''] = ''''"
    using getPropertyString_first_string_key [of "[''ISO_A3'']" demo_properties, THEN conjunct2, THEN conjunct1] only
    by blast
  ultimately show ?thesis using a b c by simp
qed

subsection \<open>Queries with geometry\<close>

lemma demo_geoms_cities: "geoms demo_engine ''cities'' = Some Map.empty"
  by (simp add: demo_engine_def)

lemma demo_geoms_provinces:
  "geoms demo_engine ''provinces'' = Some demo_province_geoms"
  by (simp add: demo_engine_def)

lemma demo_province_geoms_at:
  "demo_province_geoms 0 = None"
  "demo_province_geoms (Suc 0) = Some (Polygon [[(2, 2), (8, 2), (8, 8), (2, 8), (2, 2)]])"
  by (simp_all add: demo_province_geoms_def)

lemma demo_geoms_nowhere: "geoms demo_engine ''nowhere'' = None"
  by (simp add: demo_engine_def)

lemma geometry_loop_error_zero:
  "snd (geometry_loop g res out d) \<noteq> None \<Longrightarrow>
   fst (geometry_loop g res out d) = LocationWithGeometry_zero"
  by (induction res) (simp_all split: option.splits)

lemma geometry_loop_none:
  "\<forall>sh\<in>set res. g sh = None \<Longrightarrow>
   geometry_loop g res out d = (LocationWithGeometry_zero, Some (NoGeometryFound d))"
  by (induction res) simp_all

lemma geometry_loop_first:
  "\<forall>x\<in>set pre. g x = None \<Longrightarrow> g sh = Some geom \<Longrightarrow>
   geometry_loop g (pre @ sh # post) out d = (out\<lparr>Geometry := Some geom\<rparr>, None)"
  by (induction pre) simp_all

text \<open>
  Claim C10. Whenever \<open>ReverseGeocodeWithGeometry\<close> returns an error, the
  \<open>LocationWithGeometry\<close> it returns is the zero value. In particular, when shapes
  match, the dataset is registered and none of the matching shapes belongs to it, the
  result is the zero value with the no-geometry error: the merged location is dropped.
\<close>

theorem ReverseGeocodeWithGeometry_error_zero:
  "(snd (ReverseGeocodeWithGeometry lib r loc dataset) \<noteq> None \<longrightarrow>
      fst (ReverseGeocodeWithGeometry lib r loc dataset) = LocationWithGeometry_zero)
   \<and> (\<forall>g. ContainingShapes lib (index r) (pointFromCoord lib loc) \<noteq> [] \<and> dataset \<noteq> ''''
          \<and> geoms r dataset = Some g
          \<and> (\<forall>sh\<in>set (ContainingShapes lib (index r) (pointFromCoord lib loc)). g sh = None)
        \<longrightarrow> ReverseGeocodeWithGeometry lib r loc dataset =
              (LocationWithGeometry_zero, Some (NoGeometryFound dataset)))"
  by (auto simp add: ReverseGeocodeWithGeometry_def Let_def geometry_loop_error_zero
      geometry_loop_none split: option.splits)


theorem ReverseGeocodeWithGeometry_error_zero_witness:
  "snd (ReverseGeocodeWithGeometry grid_lib demo_engine (5, 5) ''cities'') \<noteq> None
   \<and> ReverseGeocodeWithGeometry grid_lib demo_engine (5, 5) ''cities'' =
        (LocationWithGeometry_zero, Some (NoGeometryFound ''cities''))
   \<and> combineLocations (locs demo_engine) [0, 1] \<noteq> Location_zero"
proof -
  have run: "ReverseGeocodeWithGeometry grid_lib demo_engine (5, 5) ''cities'' =
        (LocationWithGeometry_zero, Some (NoGeometryFound ''cities''))"
    using ReverseGeocodeWithGeometry_error_zero
      [of grid_lib demo_engine "(5, 5)" "''cities''", THEN conjunct2, THEN spec, of Map.empty]
    by (simp add: demo_query_inner demo_geoms_cities)
  have merged: "Country (combineLocations (locs demo_engine) [0, 1]) = ''Testland''"
    by (simp add: combineLocations_def combine_step_def locs_at_def demo_engine_def
        demo_country_def demo_province_def Location_zero_def)
  have "combineLocations (locs demo_engine) [0, 1] \<noteq> Location_zero"
  proof
    assume "combineLocations (locs demo_engine) [0, 1] = Location_zero"
    then have "Country (combineLocations (locs demo_engine) [0, 1]) = ''''"
      by (simp add: Location_zero_def)
    with merged show False by simp
  qed
  then show ?thesis using run by simp
qed

text \<open>
  Claim C7, as stated, fails at a point that no shape contains: the empty-result test
  comes first, so the error is the location-not-found one, with an empty dataset name
  and with an unregistered one alike.
\<close>

theorem ReverseGeocodeWithGeometry_no_match_counterexample:
  "ReverseGeocodeWithGeometry grid_lib demo_engine (20, 20) '''' =
     (LocationWithGeometry_zero, Some ErrLocationNotFound)
   \<and> ReverseGeocodeWithGeometry grid_lib demo_engine (20, 20) ''nowhere'' =
     (LocationWithGeometry_zero, Some ErrLocationNotFound)
   \<and> geoms demo_engine ''nowhere'' = None"
  by (simp add: ReverseGeocodeWithGeometry_def demo_query_none demo_geoms_nowhere)

text \<open>
  Claim C7, amended. With \<open>res\<close> the index query's result at the point: when \<open>res\<close> is
  empty the error is location-not-found, whatever the dataset name. When \<open>res\<close> is not
  empty: an empty dataset name gives the missing-parameter error; a non-empty name
  that is not registered gives the dataset-not-found error; for a registered name the
  result is the merged location with the geometry of the first shape of \<open>res\<close> that
  belongs to the dataset, and the no-geometry error when no shape of \<open>res\<close> belongs
  to it.
\<close>

theorem ReverseGeocodeWithGeometry_cases:
  assumes res: "ContainingShapes lib (index r) (pointFromCoord lib loc) = res"
  shows "(res = [] \<longrightarrow>
            ReverseGeocodeWithGeometry lib r loc dataset =
              (LocationWithGeometry_zero, Some ErrLocationNotFound))
       \<and> (res \<noteq> [] \<and> dataset = '''' \<longrightarrow>
            ReverseGeocodeWithGeometry lib r loc dataset =
              (LocationWithGeometry_zero, Some MissingParameter))
       \<and> (res \<noteq> [] \<and> dataset \<noteq> '''' \<and> geoms r dataset = None \<longrightarrow>
            ReverseGeocodeWithGeometry lib r loc dataset =
              (LocationWithGeometry_zero, Some (DatasetNotFound dataset)))
       \<and> (\<forall>g. res \<noteq> [] \<and> dataset \<noteq> '''' \<and> geoms r dataset = Some g \<longrightarrow>
            (\<forall>pre sh post geom.
               res = pre @ sh # post \<and> (\<forall>x\<in>set pre. g x = None) \<and> g sh = Some geom \<longrightarrow>
               ReverseGeocodeWithGeometry lib r loc dataset =
                 (\<lparr>Loc = combineLocations (locs r) res, Geometry = Some geom\<rparr>, None))
          \<and> ((\<forall>x\<in>set res. g x = None) \<longrightarrow>
               ReverseGeocodeWithGeometry lib r loc dataset =
                 (LocationWithGeometry_zero, Some (NoGeometryFound dataset))))"
proof (intro conjI allI impI)
  assume "res = []"
  then show "ReverseGeocodeWithGeometry lib r loc dataset =
      (LocationWithGeometry_zero, Some ErrLocationNotFound)"
    using res by (simp add: ReverseGeocodeWithGeometry_def)
next
  assume "res \<noteq> [] \<and> dataset = ''''"
  then show "ReverseGeocodeWithGeometry lib r loc dataset =
      (LocationWithGeometry_zero, Some MissingParameter)"
    using res by (simp add: ReverseGeocodeWithGeometry_def)
next
  assume "res \<noteq> [] \<and> dataset \<noteq> '''' \<and> geoms r dataset = None"
  then show "ReverseGeocodeWithGeometry lib r loc dataset =
      (LocationWithGeometry_zero, Some (DatasetNotFound dataset))"
    using res by (simp add: ReverseGeocodeWithGeometry_def)
next
  fix g pre sh post geom
  assume reg: "res \<noteq> [] \<and> dataset \<noteq> '''' \<and> geoms r dataset = Some g"
    and hit: "res = pre @ sh # post \<and> (\<forall>x\<in>set pre. g x = None) \<and> g sh = Some geom"
  have "geometry_loop g res \<lparr>Loc = combineLocations (locs r) res, Geometry = None\<rparr> dataset =
      (\<lparr>Loc = combineLocations (locs r) res, Geometry = Some geom\<rparr>, None)"
    using hit geometry_loop_first [of pre g sh geom post] by simp
  then show "ReverseGeocodeWithGeometry lib r loc dataset =
      (\<lparr>Loc = combineLocations (locs r) res, Geometry = Some geom\<rparr>, None)"
    using res reg by (simp add: ReverseGeocodeWithGeometry_def)
next
  fix g
  assume reg: "res \<noteq> [] \<and> dataset \<noteq> '''' \<and> geoms r dataset = Some g"
    and miss: "\<forall>x\<in>set res. g x = None"
  show "ReverseGeocodeWithGeometry lib r loc dataset =
      (LocationWithGeometry_zero, Some (NoGeometryFound dataset))"
    using res reg miss by (simp add: ReverseGeocodeWithGeometry_def geometry_loop_none)
qed

theorem ReverseGeocodeWithGeometry_cases_witness:
  "ContainingShapes grid_lib (index demo_engine) (pointFromCoord grid_lib (5, 5)) = [0, 1]
   \<and> ReverseGeocodeWithGeometry grid_lib demo_engine (5, 5) '''' =
        (LocationWithGeometry_zero, Some MissingParameter)
   \<and> ReverseGeocodeWithGeometry grid_lib demo_engine (5, 5) ''nowhere'' =
        (LocationWithGeometry_zero, Some (DatasetNotFound ''nowhere''))
   \<and> ReverseGeocodeWithGeometry grid_lib demo_engine (5, 5) ''provinces'' =
        (\<lparr>Loc = combineLocations (locs demo_engine) [0, 1],
          Geometry = Some (Polygon [[(2, 2), (8, 2), (8, 8), (2, 8), (2, 2)]])\<rparr>, None)
   \<and> ReverseGeocodeWithGeometry grid_lib demo_engine (5, 5) ''cities'' =
        (LocationWithGeometry_zero, Some (NoGeometryFound ''cities''))"
proof -
  note c = ReverseGeocodeWithGeometry_cases [OF demo_query_inner]
  have a: "ReverseGeocodeWithGeometry grid_lib demo_engine (5, 5) '''' =
        (LocationWithGeometry_zero, Some MissingParameter)"
    using c [of "''''"] by simp
  have b: "ReverseGeocodeWithGeometry grid_lib demo_engine (5, 5) ''nowhere'' =
        (LocationWithGeometry_zero, Some (DatasetNotFound ''nowhere''))"
    using c [of "''nowhere''"] by (simp add: demo_geoms_nowhere)
  have split: "[0, 1] = [0] @ 1 # ([] :: shape list)" by simp
  have d: "ReverseGeocodeWithGeometry grid_lib demo_engine (5, 5) ''provinces'' =
        (\<lparr>Loc = combineLocations (locs demo_engine) [0, 1],
          Geometry = Some (Polygon [[(2, 2), (8, 2), (8, 8), (2, 8), (2, 2)]])\<rparr>, None)"
    using c [of "''provinces''", THEN conjunct2, THEN conjunct2, THEN conjunct2, THEN spec,
        of demo_province_geoms, THEN mp, THEN conjunct1, THEN spec, THEN spec, THEN spec, THEN spec,
        of "[0]" 1 "[]" "Polygon [[(2, 2), (8, 2), (8, 8), (2, 8), (2, 2)]]"]
    by (simp add: demo_geoms_provinces demo_province_geoms_at)
  have e: "ReverseGeocodeWithGeometry grid_lib demo_engine (5, 5) ''cities'' =
        (LocationWithGeometry_zero, Some (NoGeometryFound ''cities''))"
    using c [of "''cities''", THEN conjunct2, THEN conjunct2, THEN conjunct2, THEN spec,
        of Map.empty] demo_geoms_cities
    by simp
  show ?thesis using demo_query_inner a b d e by simp
qed

subsection \<open>Rendering\<close>

text \<open>
  Claim C8. The all-empty location renders as \<open><Location> Empty Location\<close>. The
  location with country \<open>Testland\<close> and alpha-3 code \<open>TST\<close> and nothing else renders
  with a trailing comma, and the location with only a city renders with two: the comma
  is appended whenever anything was emitted, also when no continent, region or
  subregion follows it.
\<close>

theorem Location_String_examples:
  "Location_String Location_zero = ''<Location> Empty Location''
   \<and> Location_String (Location_zero\<lparr>Country := ''Testland'', CountryCode3 := ''TST''\<rparr>) =
       ''<Location> Testland (TST),''
   \<and> Location_String (Location_zero\<lparr>City := ''Testville''\<rparr>) = ''<Location> Testville,,''"
  by (simp add: Location_String_def Location_zero_def)

subsection \<open>Normalizing rings\<close>

lemma length_loopFromRing_pts: "length (loopFromRing_pts lib r reverse) = length r - 1"
  by (simp add: loopFromRing_pts_def Let_def)

lemma loopFromRing_pts_forward:
  "loopFromRing_pts lib r False = map (pointFromCoord lib) (butlast r)"
  by (rule nth_equalityI) (simp_all add: loopFromRing_pts_def Let_def nth_butlast)

lemma loopFromRing_pts_backward:
  "loopFromRing_pts lib r True = map (pointFromCoord lib) (rev (tl r))"
proof (rule nth_equalityI)
  show "length (loopFromRing_pts lib r True) = length (map (pointFromCoord lib) (rev (tl r)))"
    by (simp add: loopFromRing_pts_def Let_def)
next
  fix i
  assume "i < length (loopFromRing_pts lib r True)"
  then have i: "i < length r - 1" by (simp add: loopFromRing_pts_def Let_def)
  then have "rev (tl r) ! i = tl r ! (length r - 1 - Suc i)"
    by (simp add: rev_nth)
  also have "\<dots> = r ! Suc (length r - 1 - Suc i)"
    using i by (simp add: nth_tl)
  also have "Suc (length r - 1 - Suc i) = length r - 1 - i"
    using i by arith
  finally show "loopFromRing_pts lib r True ! i = map (pointFromCoord lib) (rev (tl r)) ! i"
    using i by (simp add: loopFromRing_pts_def Let_def)
qed

text \<open>
  Claim C2. For a ring of \<open>n \<ge> 4\<close> points \<open>loopFromRing\<close> builds its loop from a
  sequence of \<open>n - 1\<close> points. When the ring is not reversed these are the ring's first
  \<open>n - 1\<close> points in order (the closing point is dropped); when it is reversed they are
  the ring's last \<open>n - 1\<close> points in reverse order.
\<close>

theorem loopFromRing_drops_closing_point:
  "4 \<le> length r \<Longrightarrow>
   loopFromRing lib r reverse = Some (LoopFromPoints lib (loopFromRing_pts lib r reverse))
   \<and> length (loopFromRing_pts lib r reverse) = length r - 1
   \<and> loopFromRing_pts lib r False = map (pointFromCoord lib) (take (length r - 1) r)
   \<and> loopFromRing_pts lib r True = map (pointFromCoord lib) (rev (drop 1 r))"
  by (auto simp add: loopFromRing_def length_loopFromRing_pts loopFromRing_pts_forward
      loopFromRing_pts_backward butlast_conv_take drop_Suc)

theorem loopFromRing_drops_closing_point_witness:
  "4 \<le> length demo_ring
   \<and> loopFromRing grid_lib demo_ring False = Some [(0, 0), (0, 10), (10, 10), (10, 0)]
   \<and> length (loopFromRing_pts grid_lib demo_ring False) = 4
   \<and> loopFromRing_pts grid_lib demo_ring True = [(0, 0), (10, 0), (10, 10), (0, 10)]"
proof -
  have len: "4 \<le> length demo_ring" by (simp add: demo_ring_def)
  note fwd = loopFromRing_drops_closing_point [OF len, of grid_lib False]
  note bwd = loopFromRing_drops_closing_point [OF len, of grid_lib True]
  have v1: "map (pointFromCoord grid_lib) (take (length demo_ring - 1) demo_ring) =
      [(0, 0), (0, 10), (10, 10), (10, 0)]"
    by (simp add: demo_ring_def grid_lib_def pointFromCoord_def)
  have v2: "map (pointFromCoord grid_lib) (rev (drop 1 demo_ring)) =
      [(0, 0), (10, 0), (10, 10), (0, 10)]"
    by (simp add: demo_ring_def grid_lib_def pointFromCoord_def)
  have lfp: "LoopFromPoints grid_lib = (\<lambda>pts. pts)" by (simp add: grid_lib_def)
  have p1: "loopFromRing_pts grid_lib demo_ring False = [(0, 0), (0, 10), (10, 10), (10, 0)]"
    using fwd by (simp only: v1)
  have p2: "loopFromRing_pts grid_lib demo_ring True = [(0, 0), (10, 0), (10, 10), (0, 10)]"
    using bwd by (simp only: v2)
  have l1: "loopFromRing grid_lib demo_ring False = Some [(0, 0), (0, 10), (10, 10), (10, 0)]"
    using fwd by (simp only: p1 lfp)
  show ?thesis
    using len p1 p2 l1 by simp
qed

lemma loopSlice_loop_ok_ring:
  "ring_ok lib r \<Longrightarrow>
   loopSlice_loop lib p (r # rs) loops = loopSlice_loop lib p rs (loops @ [ring_loop lib r])"
  by (auto simp add: ring_ok_def ring_loop_def loopFromRing_def Let_def)

lemma loopSlice_loop_bad_ring:
  "\<not> ring_ok lib r \<Longrightarrow>
   loopSlice_loop lib p (r # rs) loops =
     Inl (if length r < 4 then TooFewPoints else LastNotFirst p)"
  by (auto simp add: ring_ok_def Let_def)

lemma loopSlice_loop_all_ok:
  "\<forall>r\<in>set rs. ring_ok lib r \<Longrightarrow>
   loopSlice_loop lib p rs loops = Inr (loops @ map (ring_loop lib) rs)"
proof (induction rs arbitrary: loops)
  case Nil
  show ?case by simp
next
  case (Cons r rs)
  then show ?case
    by (simp add: loopSlice_loop_ok_ring del: loopSlice_loop.simps)
qed

lemma loopSlice_loop_first_bad:
  "\<forall>g\<in>set good. ring_ok lib g \<Longrightarrow> \<not> ring_ok lib r \<Longrightarrow>
   loopSlice_loop lib p (good @ r # rest) loops =
     Inl (if length r < 4 then TooFewPoints else LastNotFirst p)"
proof (induction good arbitrary: loops)
  case Nil
  then show ?case by (simp add: loopSlice_loop_bad_ring del: loopSlice_loop.simps)
next
  case (Cons g good)
  then show ?case
    by (simp add: loopSlice_loop_ok_ring del: loopSlice_loop.simps)
qed

lemma first_bad_split:
  "\<exists>r\<in>set p. \<not> P r \<Longrightarrow> \<exists>good r rest. p = good @ r # rest \<and> (\<forall>g\<in>set good. P g) \<and> \<not> P r"
proof (induction p)
  case Nil
  then show ?case by simp
next
  case (Cons a p)
  show ?case
  proof (cases "P a")
    case False
    then have "a # p = [] @ a # p \<and> (\<forall>g\<in>set []. P g) \<and> \<not> P a" by simp
    then show ?thesis by blast
  next
    case True
    with Cons.prems have "\<exists>r\<in>set p. \<not> P r" by auto
    from Cons.IH [OF this] obtain good r rest
      where "p = good @ r # rest" "\<forall>g\<in>set good. P g" "\<not> P r" by blast
    with True have "a # p = (a # good) @ r # rest \<and> (\<forall>g\<in>set (a # good). P g) \<and> \<not> P r"
      by simp
    then show ?thesis by blast
  qed
qed

lemma loopSliceFromPolygon_first_bad:
  "\<forall>g\<in>set good. ring_ok lib g \<Longrightarrow> \<not> ring_ok lib r \<Longrightarrow>
   loopSliceFromPolygon lib (good @ r # rest) =
     ([], Some (if length r < 4 then TooFewPoints else LastNotFirst (good @ r # rest)))"
  by (simp add: loopSliceFromPolygon_def loopSlice_loop_first_bad)

lemma loopSliceFromPolygon_all_ok:
  "\<forall>r\<in>set p. ring_ok lib r \<Longrightarrow>
   loopSliceFromPolygon lib p = (map (ring_loop lib) p, None)"
  by (simp add: loopSliceFromPolygon_def loopSlice_loop_all_ok)

text \<open>
  Claim C3. Let a polygon's rings before some ring \<open>r\<close> all pass the checks. If \<open>r\<close>
  has fewer than 4 points, \<open>loopSliceFromPolygon\<close> returns the too-few-points error;
  if \<open>r\<close> has at least 4 points and its first and last points are not equal, it
  returns the unclosed-ring error (the length check comes first). A polygon with any
  such ring gives one of these two errors, and no loops.
\<close>

theorem loopSliceFromPolygon_rejects:
  "(\<forall>good r rest.
      p = good @ r # rest \<and> (\<forall>g\<in>set good. ring_ok lib g) \<and> length r < 4 \<longrightarrow>
      loopSliceFromPolygon lib p = ([], Some TooFewPoints))
   \<and> (\<forall>good r rest.
      p = good @ r # rest \<and> (\<forall>g\<in>set good. ring_ok lib g) \<and> 4 \<le> length r
        \<and> \<not> Equal lib (r ! 0) (r ! (length r - 1)) \<longrightarrow>
      loopSliceFromPolygon lib p = ([], Some (LastNotFirst p)))
   \<and> ((\<exists>r\<in>set p. length r < 4 \<or> \<not> Equal lib (r ! 0) (r ! (length r - 1))) \<longrightarrow>
        loopSliceFromPolygon lib p = ([], Some TooFewPoints)
      \<or> loopSliceFromPolygon lib p = ([], Some (LastNotFirst p)))"
proof (intro conjI allI impI)
  fix good r rest
  assume h: "p = good @ r # rest \<and> (\<forall>g\<in>set good. ring_ok lib g) \<and> length r < 4"
  then have "\<not> ring_ok lib r" by (simp add: ring_ok_def)
  with h show "loopSliceFromPolygon lib p = ([], Some TooFewPoints)"
    using loopSliceFromPolygon_first_bad [of good lib r rest] by simp
next
  fix good r rest
  assume h: "p = good @ r # rest \<and> (\<forall>g\<in>set good. ring_ok lib g) \<and> 4 \<le> length r
        \<and> \<not> Equal lib (r ! 0) (r ! (length r - 1))"
  then have "\<not> ring_ok lib r" by (simp add: ring_ok_def)
  with h show "loopSliceFromPolygon lib p = ([], Some (LastNotFirst p))"
    using loopSliceFromPolygon_first_bad [of good lib r rest] by simp
next
  assume "\<exists>r\<in>set p. length r < 4 \<or> \<not> Equal lib (r ! 0) (r ! (length r - 1))"
  then obtain r0 where r0: "r0 \<in> set p"
    "length r0 < 4 \<or> \<not> Equal lib (r0 ! 0) (r0 ! (length r0 - 1))" by blast
  then have "\<not> ring_ok lib r0" by (auto simp add: ring_ok_def)
  with r0 have "\<exists>r\<in>set p. \<not> ring_ok lib r" by blast
  from first_bad_split [OF this] obtain good r rest
    where "p = good @ r # rest" "\<forall>g\<in>set good. ring_ok lib g" "\<not> ring_ok lib r" by blast
  then show "loopSliceFromPolygon lib p = ([], Some TooFewPoints)
      \<or> loopSliceFromPolygon lib p = ([], Some (LastNotFirst p))"
    using loopSliceFromPolygon_first_bad [of good lib r rest] by (cases "length r < 4") simp_all
qed

lemma demo_ring_ok: "ring_ok grid_lib demo_ring"
  by (simp add: ring_ok_def grid_lib_def demo_ring_def)

theorem loopSliceFromPolygon_rejects_witness:
  "ring_ok grid_lib demo_ring
   \<and> loopSliceFromPolygon grid_lib [demo_ring, [(0, 0), (1, 1)], demo_open_ring] =
       ([], Some TooFewPoints)
   \<and> \<not> Equal grid_lib (demo_open_ring ! 0) (demo_open_ring ! (length demo_open_ring - 1))
   \<and> loopSliceFromPolygon grid_lib [demo_ring, demo_open_ring] =
       ([], Some (LastNotFirst [demo_ring, demo_open_ring]))"
proof -
  have good: "\<forall>g\<in>set [demo_ring]. ring_ok grid_lib g"
    using demo_ring_ok by simp
  have opn: "4 \<le> length demo_open_ring"
    "\<not> Equal grid_lib (demo_open_ring ! 0) (demo_open_ring ! (length demo_open_ring - 1))"
    by (simp_all add: demo_open_ring_def grid_lib_def)
  have a: "loopSliceFromPolygon grid_lib [demo_ring, [(0, 0), (1, 1)], demo_open_ring] =
       ([], Some TooFewPoints)"
    using loopSliceFromPolygon_rejects
      [of "[demo_ring, [(0, 0), (1, 1)], demo_open_ring]" grid_lib, THEN conjunct1,
        THEN spec, THEN spec, THEN spec, of "[demo_ring]" "[(0, 0), (1, 1)]" "[demo_open_ring]"]
      good
    by simp
  have b: "loopSliceFromPolygon grid_lib [demo_ring, demo_open_ring] =
       ([], Some (LastNotFirst [demo_ring, demo_open_ring]))"
    using loopSliceFromPolygon_rejects
      [of "[demo_ring, demo_open_ring]" grid_lib, THEN conjunct2, THEN conjunct1,
        THEN spec, THEN spec, THEN spec, of "[demo_ring]" demo_open_ring "[]"]
      good opn
    by simp
  show ?thesis using demo_ring_ok opn a b by simp
qed

lemma loopSliceFromPolygon_nth:
  assumes "\<forall>r\<in>set p. ring_ok lib r" and "i < length p"
  shows "fst (loopSliceFromPolygon lib p) ! i = ring_loop lib (p ! i)"
  using assms by (simp add: loopSliceFromPolygon_all_ok)

text \<open>
  Claim C4. When every ring of a polygon passes the checks, \<open>loopSliceFromPolygon\<close>
  returns no error and one loop per ring, in order. With \<open>l\<close> the loop built from the
  ring's points (reversed when the ring is clockwise) and \<open>d\<close> the radius of its
  bounding cap in degrees, the ring's loop is \<open>Invert\<close> applied to that same \<open>l\<close> when
  \<open>d\<close> exceeds 90, and \<open>l\<close> itself when \<open>d\<close> is at most 90 or not a number. No second
  loop is built from the points.
\<close>

theorem loopSliceFromPolygon_inverts_over_90:
  assumes ok: "\<forall>r\<in>set p. 4 \<le> length r \<and> Equal lib (r ! 0) (r ! (length r - 1))"
  shows "snd (loopSliceFromPolygon lib p) = None
     \<and> length (fst (loopSliceFromPolygon lib p)) = length p
     \<and> (\<forall>i<length p. \<forall>d.
           CapRadiusDegrees lib
             (LoopFromPoints lib (loopFromRing_pts lib (p ! i) (isClockwise lib (p ! i)))) = F64 d
           \<longrightarrow>
           fst (loopSliceFromPolygon lib p) ! i =
             (if 90 < d
              then Invert lib
                (LoopFromPoints lib (loopFromRing_pts lib (p ! i) (isClockwise lib (p ! i))))
              else LoopFromPoints lib (loopFromRing_pts lib (p ! i) (isClockwise lib (p ! i)))))
     \<and> (\<forall>i<length p.
           CapRadiusDegrees lib
             (LoopFromPoints lib (loopFromRing_pts lib (p ! i) (isClockwise lib (p ! i)))) = NaN
           \<longrightarrow>
           fst (loopSliceFromPolygon lib p) ! i =
             LoopFromPoints lib (loopFromRing_pts lib (p ! i) (isClockwise lib (p ! i))))"
proof -
  from ok have all: "\<forall>r\<in>set p. ring_ok lib r" by (simp add: ring_ok_def)
  have res: "loopSliceFromPolygon lib p = (map (ring_loop lib) p, None)"
    using all by (rule loopSliceFromPolygon_all_ok)
  have fin: "fst (loopSliceFromPolygon lib p) ! i =
      (if 90 < d
       then Invert lib (LoopFromPoints lib (loopFromRing_pts lib (p ! i) (isClockwise lib (p ! i))))
       else LoopFromPoints lib (loopFromRing_pts lib (p ! i) (isClockwise lib (p ! i))))"
    if "i < length p"
      and "CapRadiusDegrees lib
        (LoopFromPoints lib (loopFromRing_pts lib (p ! i) (isClockwise lib (p ! i)))) = F64 d"
    for i d
    using that loopSliceFromPolygon_nth [OF all that(1)] by (simp add: ring_loop_def)
  have nan: "fst (loopSliceFromPolygon lib p) ! i =
      LoopFromPoints lib (loopFromRing_pts lib (p ! i) (isClockwise lib (p ! i)))"
    if "i < length p"
      and "CapRadiusDegrees lib
        (LoopFromPoints lib (loopFromRing_pts lib (p ! i) (isClockwise lib (p ! i)))) = NaN"
    for i
    using that loopSliceFromPolygon_nth [OF all that(1)] by (simp add: ring_loop_def)
  show ?thesis
    using fin nan by (simp add: res)
qed

lemma demo_cw_ring_facts:
  "4 \<le> length demo_cw_ring"
  "Equal grid_lib (demo_cw_ring ! 0) (demo_cw_ring ! (length demo_cw_ring - 1))"
  "isClockwise grid_lib demo_cw_ring"
  by (simp_all add: demo_cw_ring_def grid_lib_def isClockwise_def)

lemma demo_wide_ring_facts:
  "4 \<le> length demo_wide_ring"
  "Equal grid_lib (demo_wide_ring ! 0) (demo_wide_ring ! (length demo_wide_ring - 1))"
  "\<not> isClockwise grid_lib demo_wide_ring"
  by (simp_all add: demo_wide_ring_def grid_lib_def isClockwise_def)

lemma demo_half_ring_facts:
  "4 \<le> length demo_half_ring"
  "Equal grid_lib (demo_half_ring ! 0) (demo_half_ring ! (length demo_half_ring - 1))"
  "\<not> isClockwise grid_lib demo_half_ring"
  by (simp_all add: demo_half_ring_def grid_lib_def isClockwise_def)

lemma demo_cw_ring_pts:
  "loopFromRing_pts grid_lib demo_cw_ring True = [(0, 0), (0, 10), (10, 10), (10, 0)]"
  by (simp add: loopFromRing_pts_backward demo_cw_ring_def grid_lib_def pointFromCoord_def)

lemma demo_wide_ring_pts:
  "loopFromRing_pts grid_lib demo_wide_ring False = [(0, - 100), (0, 100), (10, 100), (10, - 100)]"
  by (simp add: loopFromRing_pts_forward demo_wide_ring_def grid_lib_def pointFromCoord_def)

lemma demo_half_ring_pts:
  "loopFromRing_pts grid_lib demo_half_ring False = [(0, - 90), (0, 90), (10, 90), (10, - 90)]"
  by (simp add: loopFromRing_pts_forward demo_half_ring_def grid_lib_def pointFromCoord_def)

lemma grid_lib_loops:
  "LoopFromPoints grid_lib pts = pts"
  "Invert grid_lib l = rev l"
  "CapRadiusDegrees grid_lib l = F64 (real_of_int (grid_span l) / 2)"
  by (simp_all add: grid_lib_def)

lemma demo_caps:
  "CapRadiusDegrees grid_lib [(0, 0), (0, 10), (10, 10), (10, 0)] = F64 5"
  "CapRadiusDegrees grid_lib [(0, - 100), (0, 100), (10, 100), (10, - 100)] = F64 100"
  "CapRadiusDegrees grid_lib [(0, - 90), (0, 90), (10, 90), (10, - 90)] = F64 90"
  by (simp_all add: grid_lib_loops grid_span_def)

theorem loopSliceFromPolygon_inverts_over_90_witness:
  "(4 \<le> length demo_cw_ring
      \<and> Equal grid_lib (demo_cw_ring ! 0) (demo_cw_ring ! (length demo_cw_ring - 1)))
   \<and> (4 \<le> length demo_wide_ring
      \<and> Equal grid_lib (demo_wide_ring ! 0) (demo_wide_ring ! (length demo_wide_ring - 1)))
   \<and> (4 \<le> length demo_half_ring
      \<and> Equal grid_lib (demo_half_ring ! 0) (demo_half_ring ! (length demo_half_ring - 1)))
   \<and> CapRadiusDegrees grid_lib [(0, 0), (0, 10), (10, 10), (10, 0)] = F64 5
   \<and> CapRadiusDegrees grid_lib [(0, - 100), (0, 100), (10, 100), (10, - 100)] = F64 100
   \<and> CapRadiusDegrees grid_lib [(0, - 90), (0, 90), (10, 90), (10, - 90)] = F64 90
   \<and> snd (loopSliceFromPolygon grid_lib [demo_cw_ring, demo_wide_ring, demo_half_ring]) = None
   \<and> fst (loopSliceFromPolygon grid_lib [demo_cw_ring, demo_wide_ring, demo_half_ring]) ! 0 =
       [(0, 0), (0, 10), (10, 10), (10, 0)]
   \<and> fst (loopSliceFromPolygon grid_lib [demo_cw_ring, demo_wide_ring, demo_half_ring]) ! 1 =
       rev [(0, - 100), (0, 100), (10, 100), (10, - 100)]
   \<and> fst (loopSliceFromPolygon grid_lib [demo_cw_ring, demo_wide_ring, demo_half_ring]) ! 2 =
       [(0, - 90), (0, 90), (10, 90), (10, - 90)]"
proof -
  let ?p = "[demo_cw_ring, demo_wide_ring, demo_half_ring]"
  have all: "\<forall>r\<in>set ?p. 4 \<le> length r \<and> Equal grid_lib (r ! 0) (r ! (length r - 1))"
    using demo_cw_ring_facts demo_wide_ring_facts demo_half_ring_facts by simp
  note t = loopSliceFromPolygon_inverts_over_90 [OF all]
  have l0: "LoopFromPoints grid_lib
      (loopFromRing_pts grid_lib (?p ! 0) (isClockwise grid_lib (?p ! 0))) =
      [(0, 0), (0, 10), (10, 10), (10, 0)]"
    by (simp add: demo_cw_ring_facts demo_cw_ring_pts grid_lib_loops)
  have l1: "LoopFromPoints grid_lib
      (loopFromRing_pts grid_lib (?p ! 1) (isClockwise grid_lib (?p ! 1))) =
      [(0, - 100), (0, 100), (10, 100), (10, - 100)]"
    by (simp add: demo_wide_ring_facts demo_wide_ring_pts grid_lib_loops)
  have l2: "LoopFromPoints grid_lib
      (loopFromRing_pts grid_lib (?p ! 2) (isClockwise grid_lib (?p ! 2))) =
      [(0, - 90), (0, 90), (10, 90), (10, - 90)]"
    by (simp add: demo_half_ring_facts demo_half_ring_pts grid_lib_loops)
  have e: "snd (loopSliceFromPolygon grid_lib ?p) = None"
    using t by (rule conjunct1)
  note each = t [THEN conjunct2, THEN conjunct2, THEN conjunct1]
  have r0: "fst (loopSliceFromPolygon grid_lib ?p) ! 0 = [(0, 0), (0, 10), (10, 10), (10, 0)]"
    using each [THEN spec, of 0, THEN mp, THEN spec, of 5]
    unfolding l0 by (simp add: demo_caps)
  have r1: "fst (loopSliceFromPolygon grid_lib ?p) ! 1 =
      rev [(0, - 100), (0, 100), (10, 100), (10, - 100)]"
    using each [THEN spec, of 1, THEN mp, THEN spec, of 100]
    unfolding l1 by (simp add: demo_caps grid_lib_loops(2) del: rev.simps)
  have r2: "fst (loopSliceFromPolygon grid_lib ?p) ! 2 = [(0, - 90), (0, 90), (10, 90), (10, - 90)]"
    using each [THEN spec, of 2, THEN mp, THEN spec, of 90]
    unfolding l2 by (simp add: demo_caps)
  show ?thesis
    using demo_cw_ring_facts demo_wide_ring_facts demo_half_ring_facts demo_caps e r0 r1 r2
    by (simp del: rev.simps)
qed

subsection \<open>Winding\<close>























































subsection \<open>Converting geometry\<close>

lemma find_first_split:
  "find P xs = Some x \<Longrightarrow> \<exists>pre post. xs = pre @ x # post \<and> (\<forall>y\<in>set pre. \<not> P y) \<and> P x"
proof (induction xs)
  case Nil
  then show ?case by simp
next
  case (Cons a xs)
  show ?case
  proof (cases "P a")
    case True
    with Cons.prems have "a = x" by simp
    with True have "a # xs = [] @ x # xs \<and> (\<forall>y\<in>set []. \<not> P y) \<and> P x" by simp
    then show ?thesis by blast
  next
    case False
    with Cons.prems have "find P xs = Some x" by simp
    from Cons.IH [OF this] obtain pre post where
      "xs = pre @ x # post" "\<forall>y\<in>set pre. \<not> P y" "P x" by blast
    with False have "a # xs = (a # pre) @ x # post \<and> (\<forall>y\<in>set (a # pre). \<not> P y) \<and> P x"
      by simp
    then show ?thesis by blast
  qed
qed

lemma polygon_error_None_iff: "polygon_error lib p = None \<longleftrightarrow> list_all (ring_ok lib) p"
proof (cases "find (\<lambda>r. \<not> ring_ok lib r) p")
  case None
  then have "\<forall>r\<in>set p. ring_ok lib r" by (auto simp add: find_None_iff)
  with None show ?thesis
    by (simp add: polygon_error_def list_all_iff)
next
  case (Some r)
  from find_first_split [OF Some] have "r \<in> set p" "\<not> ring_ok lib r" by auto
  then have "\<not> list_all (ring_ok lib) p" by (auto simp add: list_all_iff)
  with Some show ?thesis by (simp add: polygon_error_def)
qed

lemma loopSliceFromPolygon_eq:
  "loopSliceFromPolygon lib p =
     (case polygon_error lib p of
        None \<Rightarrow> (map (ring_loop lib) p, None)
      | Some err \<Rightarrow> ([], Some err))"
proof (cases "find (\<lambda>r. \<not> ring_ok lib r) p")
  case None
  then have "\<forall>r\<in>set p. ring_ok lib r" by (auto simp add: find_None_iff)
  from loopSliceFromPolygon_all_ok [OF this] None show ?thesis
    by (simp add: polygon_error_def)
next
  case (Some r)
  from find_first_split [OF Some] obtain good rest where
    p: "p = good @ r # rest" and good: "\<forall>g\<in>set good. ring_ok lib g" and bad: "\<not> ring_ok lib r"
    by auto
  from loopSliceFromPolygon_first_bad [OF good bad, of rest] Some p show ?thesis
    by (simp add: polygon_error_def)
qed

lemma polygonFromMultiPolygon_loop_ok:
  "list_all (list_all (ring_ok lib)) ps \<Longrightarrow>
   polygonFromMultiPolygon_loop lib ps loops =
     Inr (PolygonFromLoops lib (loops @ concat (map (map (ring_loop lib)) ps)))"
proof (induction ps arbitrary: loops)
  case Nil
  show ?case by simp
next
  case (Cons q ps)
  from Cons.prems have q: "polygon_error lib q = None" and rest: "list_all (list_all (ring_ok lib)) ps"
    by (simp_all add: polygon_error_None_iff)
  show ?case
    using Cons.IH [OF rest] q by (simp add: loopSliceFromPolygon_eq)
qed

lemma polygonFromMultiPolygon_loop_bad:
  "list_all (list_all (ring_ok lib)) good \<Longrightarrow> polygon_error lib q = Some err \<Longrightarrow>
   polygonFromMultiPolygon_loop lib (good @ q # rest) loops = Inl err"
proof (induction good arbitrary: loops)
  case Nil
  then show ?case by (simp add: loopSliceFromPolygon_eq)
next
  case (Cons a good)
  from Cons.prems have a: "polygon_error lib a = None" and g: "list_all (list_all (ring_ok lib)) good"
    by (simp_all add: polygon_error_None_iff)
  show ?case
    using Cons.IH [OF g Cons.prems(2)] a by (simp add: loopSliceFromPolygon_eq)
qed

lemma polygonFromGeometry_eq:
  "polygonFromGeometry lib g =
     (case geometry_error lib g of
        None \<Rightarrow> Inr (PolygonFromLoops lib (geometry_loops lib g))
      | Some err \<Rightarrow> Inl err)"
proof (cases g)
  case (Polygon p)
  then show ?thesis
    by (simp add: polygonFromGeometry_def polygonFromPolygon_def loopSliceFromPolygon_eq
        geometry_error_def geometry_loops_def split: option.splits)
next
  case (MultiPolygon ps)
  show ?thesis
  proof (cases "find (\<lambda>p. \<not> list_all (ring_ok lib) p) ps")
    case None
    then have "list_all (list_all (ring_ok lib)) ps"
      by (auto simp add: find_None_iff list_all_iff)
    from polygonFromMultiPolygon_loop_ok [OF this, of "[]"] None MultiPolygon show ?thesis
      by (simp add: polygonFromGeometry_def polygonFromMultiPolygon_def geometry_error_def
          geometry_loops_def)
  next
    case (Some q)
    from find_first_split [OF Some] obtain good rest where
      ps: "ps = good @ q # rest" and good: "\<forall>y\<in>set good. list_all (ring_ok lib) y"
      and bad: "\<not> list_all (ring_ok lib) q" by auto
    from bad obtain err where err: "polygon_error lib q = Some err"
      using polygon_error_None_iff [of lib q] by (cases "polygon_error lib q") auto
    from good have "list_all (list_all (ring_ok lib)) good" by (simp add: list_all_iff)
    from polygonFromMultiPolygon_loop_bad [OF this err, of rest "[]"] Some MultiPolygon ps err
    show ?thesis
      by (simp add: polygonFromGeometry_def polygonFromMultiPolygon_def geometry_error_def)
  qed
next
  case OtherGeometry
  then show ?thesis
    by (simp add: polygonFromGeometry_def geometry_error_def)
qed

lemma geometry_error_None_iff: "geometry_error lib g = None \<longleftrightarrow> geometry_ok lib g"
proof (cases g)
  case (Polygon p)
  then show ?thesis by (simp add: geometry_error_def geometry_ok_def polygon_error_None_iff)
next
  case (MultiPolygon ps)
  show ?thesis
  proof (cases "find (\<lambda>p. \<not> list_all (ring_ok lib) p) ps")
    case None
    then have "list_all (list_all (ring_ok lib)) ps"
      by (auto simp add: find_None_iff list_all_iff)
    with None MultiPolygon show ?thesis by (simp add: geometry_error_def geometry_ok_def)
  next
    case (Some q)
    from find_first_split [OF Some] have q: "q \<in> set ps" "\<not> list_all (ring_ok lib) q" by auto
    then have "polygon_error lib q \<noteq> None" by (simp add: polygon_error_None_iff)
    moreover from q have "\<not> list_all (list_all (ring_ok lib)) ps" by (auto simp add: list_all_iff)
    ultimately show ?thesis using Some MultiPolygon
      by (simp add: geometry_error_def geometry_ok_def)
  qed
next
  case OtherGeometry
  then show ?thesis by (simp add: geometry_error_def geometry_ok_def)
qed

lemma polygonFromGeometry_Inr:
  "polygonFromGeometry lib g = Inr polygon \<Longrightarrow>
   geometry_ok lib g \<and> polygon = PolygonFromLoops lib (geometry_loops lib g)"
  using geometry_error_None_iff [of lib g]
  by (auto simp add: polygonFromGeometry_eq split: option.splits)

lemma polygonFromGeometry_ok:
  "geometry_ok lib g \<Longrightarrow>
   polygonFromGeometry lib g = Inr (PolygonFromLoops lib (geometry_loops lib g))"
  using geometry_error_None_iff [of lib g]
  by (simp add: polygonFromGeometry_eq)

lemma polygonFromGeometry_not_ok:
  "\<not> geometry_ok lib g \<Longrightarrow> \<exists>err. geometry_error lib g = Some err \<and> polygonFromGeometry lib g = Inl err"
  using geometry_error_None_iff [of lib g]
  by (cases "geometry_error lib g") (auto simp add: polygonFromGeometry_eq)

lemma feature_ok_verdict:
  "feature_ok lib c =
     (case polygonFromGeometry lib (fGeometry c) of Inl err \<Rightarrow> False | Inr polygon \<Rightarrow> True)"
  using geometry_error_None_iff [of lib "fGeometry c"]
  by (cases "geometry_error lib (fGeometry c)") (simp_all add: feature_ok_def polygonFromGeometry_eq)

subsection \<open>Construction\<close>

lemma option_case_ex:
  "(case x of None \<Rightarrow> False | Some g \<Rightarrow> P g) = (\<exists>g. x = Some g \<and> P g)"
  by (cases x) simp_all

lemma ingested_iff:
  "ingested lib fs eng =
     (length (index eng) = length fs \<and>
      (\<forall>k<length fs.
         fst (index eng ! k) = k \<and>
         snd (index eng ! k) =
           PolygonFromLoops lib (geometry_loops lib (fGeometry (snd (fs ! k)))) \<and>
         locs eng k = Some (getLocationStrings (fProperties (snd (fs ! k)))) \<and>
         (\<exists>g. geoms eng (fst (fs ! k)) = Some g \<and> g k = Some (fGeometry (snd (fs ! k))))))"
  unfolding ingested_def list_all_iff option_case_ex by auto

lemma ingested_step:
  assumes ing: "ingested lib fs ret"
    and poly: "polygonFromGeometry lib (fGeometry c) = Inr polygon"
    and reg: "geoms ret nm = Some g"
  shows "ingested lib (fs @ [(nm, c)])
           (ret\<lparr>geoms := (geoms ret)(nm \<mapsto> g(length (index ret) \<mapsto> fGeometry c)),
                index := index ret @ [(length (index ret), polygon)],
                locs := (locs ret)(length (index ret) \<mapsto> getLocationStrings (fProperties c))\<rparr>)"
proof -
  let ?n = "length (index ret)"
  let ?ret' = "ret\<lparr>geoms := (geoms ret)(nm \<mapsto> g(?n \<mapsto> fGeometry c)),
                index := index ret @ [(?n, polygon)],
                locs := (locs ret)(?n \<mapsto> getLocationStrings (fProperties c))\<rparr>"
  have n: "?n = length fs" using ing by (simp add: ingested_iff)
  have old: "fst (index ?ret' ! k) = k \<and>
         snd (index ?ret' ! k) =
           PolygonFromLoops lib (geometry_loops lib (fGeometry (snd ((fs @ [(nm, c)]) ! k)))) \<and>
         locs ?ret' k = Some (getLocationStrings (fProperties (snd ((fs @ [(nm, c)]) ! k)))) \<and>
         (\<exists>g'. geoms ?ret' (fst ((fs @ [(nm, c)]) ! k)) = Some g' \<and>
               g' k = Some (fGeometry (snd ((fs @ [(nm, c)]) ! k))))"
    if k: "k < length fs" for k
  proof -
    from ing k have a: "fst (index ret ! k) = k"
      and b: "snd (index ret ! k) =
          PolygonFromLoops lib (geometry_loops lib (fGeometry (snd (fs ! k))))"
      and c: "locs ret k = Some (getLocationStrings (fProperties (snd (fs ! k))))"
      and d: "\<exists>g. geoms ret (fst (fs ! k)) = Some g \<and> g k = Some (fGeometry (snd (fs ! k)))"
      by (simp_all add: ingested_iff)
    from d obtain g0 where g0: "geoms ret (fst (fs ! k)) = Some g0"
      "g0 k = Some (fGeometry (snd (fs ! k)))" by blast
    have ne: "k \<noteq> ?n" using k n by simp
    have e: "\<exists>g'. geoms ?ret' (fst (fs ! k)) = Some g' \<and> g' k = Some (fGeometry (snd (fs ! k)))"
    proof (cases "fst (fs ! k) = nm")
      case True
      with g0 reg have "g0 = g" by simp
      with True g0 ne show ?thesis by simp
    next
      case False
      with g0 show ?thesis by simp
    qed
    show ?thesis
      using a b c e k n ne by (simp add: nth_append)
  qed
  have new: "fst (index ?ret' ! length fs) = length fs \<and>
         snd (index ?ret' ! length fs) =
           PolygonFromLoops lib
             (geometry_loops lib (fGeometry (snd ((fs @ [(nm, c)]) ! length fs)))) \<and>
         locs ?ret' (length fs) =
           Some (getLocationStrings (fProperties (snd ((fs @ [(nm, c)]) ! length fs)))) \<and>
         (\<exists>g'. geoms ?ret' (fst ((fs @ [(nm, c)]) ! length fs)) = Some g' \<and>
               g' (length fs) = Some (fGeometry (snd ((fs @ [(nm, c)]) ! length fs))))"
    using n polygonFromGeometry_Inr [OF poly] by (simp add: nth_append)
  have len: "length (index ?ret') = length (fs @ [(nm, c)])"
    using n by simp
  have each: "fst (index ?ret' ! k) = k \<and>
         snd (index ?ret' ! k) =
           PolygonFromLoops lib (geometry_loops lib (fGeometry (snd ((fs @ [(nm, c)]) ! k)))) \<and>
         locs ?ret' k = Some (getLocationStrings (fProperties (snd ((fs @ [(nm, c)]) ! k)))) \<and>
         (\<exists>g'. geoms ?ret' (fst ((fs @ [(nm, c)]) ! k)) = Some g' \<and>
               g' k = Some (fGeometry (snd ((fs @ [(nm, c)]) ! k))))"
    if "k < length (fs @ [(nm, c)])" for k
  proof (cases "k < length fs")
    case True
    then show ?thesis by (rule old)
  next
    case False
    with that have "k = length fs" by simp
    then show ?thesis using new by simp
  qed
  show ?thesis
    unfolding ingested_iff using len each by blast
qed

lemma features_loop_ok:
  "list_all (feature_ok lib) cs \<Longrightarrow> geoms ret nm \<noteq> None \<Longrightarrow> ingested lib fs ret \<Longrightarrow>
   \<exists>ret'. (features_loop lib nm cs ret :: ('f, 'e) new_error + ('f, 'poly) Rgeo) = Inr ret'
      \<and> ingested lib (fs @ map (Pair nm) cs) ret'"
proof (induction cs arbitrary: ret fs)
  case Nil
  then show ?case by simp
next
  case (Cons c cs)
  from Cons.prems(1) obtain polygon where poly: "polygonFromGeometry lib (fGeometry c) = Inr polygon"
    by (auto simp add: feature_ok_verdict split: sum.splits)
  from Cons.prems(2) obtain g where reg: "geoms ret nm = Some g" by blast
  let ?ret' = "ret\<lparr>geoms := (geoms ret)(nm \<mapsto> g(length (index ret) \<mapsto> fGeometry c)),
                index := index ret @ [(length (index ret), polygon)],
                locs := (locs ret)(length (index ret) \<mapsto> getLocationStrings (fProperties c))\<rparr>"
  have step: "(features_loop lib nm (c # cs) ret :: ('f, 'e) new_error + ('f, 'poly) Rgeo) = features_loop lib nm cs ?ret'"
    using poly reg by (simp add: Let_def)
  have ing': "ingested lib (fs @ [(nm, c)]) ?ret'"
    using Cons.prems(3) poly reg by (rule ingested_step)
  have reg': "geoms ?ret' nm \<noteq> None" by simp
  from Cons.prems(1) have rest: "list_all (feature_ok lib) cs" by simp
  from Cons.IH [OF rest reg' ing'] obtain ret'' where
    "(features_loop lib nm cs ?ret' :: ('f, 'e) new_error + ('f, 'poly) Rgeo) = Inr ret''"
    "ingested lib ((fs @ [(nm, c)]) @ map (Pair nm) cs) ret''" by blast
  then show ?case by (simp add: step del: features_loop.simps)
qed

lemma features_loop_bad:
  "\<not> list_all (feature_ok lib) cs \<Longrightarrow> geoms ret nm \<noteq> None \<Longrightarrow>
   \<exists>err. (features_loop lib nm cs ret :: ('f, 'e) new_error + ('f, 'poly) Rgeo) = Inl (BadPolygon err)"
proof (induction cs arbitrary: ret)
  case Nil
  then show ?case by simp
next
  case (Cons c cs)
  show ?case
  proof (cases "polygonFromGeometry lib (fGeometry c)")
    case (Inl err)
    then show ?thesis by simp
  next
    case (Inr polygon)
    then have "feature_ok lib c" by (simp add: feature_ok_verdict)
    with Cons.prems(1) have rest: "\<not> list_all (feature_ok lib) cs" by simp
    from Cons.prems(2) obtain g where reg: "geoms ret nm = Some g" by blast
    let ?ret' = "ret\<lparr>geoms := (geoms ret)(nm \<mapsto> g(length (index ret) \<mapsto> fGeometry c)),
                index := index ret @ [(length (index ret), polygon)],
                locs := (locs ret)(length (index ret) \<mapsto> getLocationStrings (fProperties c))\<rparr>"
    have step: "(features_loop lib nm (c # cs) ret :: ('f, 'e) new_error + ('f, 'poly) Rgeo) = features_loop lib nm cs ?ret'"
      using Inr reg by (simp add: Let_def)
    have reg': "geoms ?ret' nm \<noteq> None" by simp
    from Cons.IH [OF rest reg'] show ?thesis by (simp add: step del: features_loop.simps)
  qed
qed


lemma features_loop_first_bad:
  "list_all (feature_ok lib) good \<Longrightarrow> polygonFromGeometry lib (fGeometry c) = Inl err \<Longrightarrow>
   geoms ret nm \<noteq> None \<Longrightarrow>
   (features_loop lib nm (good @ c # rest) ret :: ('f, 'e) new_error + ('f, 'poly) Rgeo) =
     Inl (BadPolygon err)"
proof (induction good arbitrary: ret)
  case Nil
  then show ?case by simp
next
  case (Cons a good)
  from Cons.prems(1) obtain polygon where poly: "polygonFromGeometry lib (fGeometry a) = Inr polygon"
    by (auto simp add: feature_ok_verdict split: sum.splits)
  from Cons.prems(3) obtain g where reg: "geoms ret nm = Some g" by blast
  let ?ret' = "ret\<lparr>geoms := (geoms ret)(nm \<mapsto> g(length (index ret) \<mapsto> fGeometry a)),
                index := index ret @ [(length (index ret), polygon)],
                locs := (locs ret)(length (index ret) \<mapsto> getLocationStrings (fProperties a))\<rparr>"
  have step: "(features_loop lib nm ((a # good) @ c # rest) ret :: ('f, 'e) new_error + ('f, 'poly) Rgeo) =
      features_loop lib nm (good @ c # rest) ?ret'"
    using poly reg by (simp add: Let_def)
  have reg': "geoms ?ret' nm \<noteq> None" by simp
  from Cons.prems(1) have rest: "list_all (feature_ok lib) good" by simp
  from Cons.IH [OF rest Cons.prems(2) reg'] show ?case
    by (simp only: step)
qed

lemma register_dataset_registered: "geoms (register_dataset nm ret) nm \<noteq> None"
  by (simp add: register_dataset_def split: option.splits)

lemma register_dataset_ingested:
  assumes "ingested lib fs ret"
  shows "ingested lib fs (register_dataset nm ret)"
proof (cases "geoms ret nm")
  case (Some g)
  with assms show ?thesis by (simp add: register_dataset_def)
next
  case None
  have "\<exists>g. (if fst (fs ! k) = nm then Some Map.empty else geoms ret (fst (fs ! k))) = Some g
          \<and> g k = Some (fGeometry (snd (fs ! k)))"
    if "k < length fs" for k
  proof -
    from assms that obtain g where g: "geoms ret (fst (fs ! k)) = Some g"
      "g k = Some (fGeometry (snd (fs ! k)))"
      unfolding ingested_iff by blast
    with None have "fst (fs ! k) \<noteq> nm" by auto
    with g show ?thesis by simp
  qed
  with assms None show ?thesis
    by (simp add: register_dataset_def ingested_iff)
qed

lemma New_loop_features:
  "loader_features cod d = Some tfc \<Longrightarrow>
   New_loop lib cod i (d # ds) ret =
     (case features_loop lib (lname d) tfc (register_dataset (lname d) ret) of
        Inl err \<Rightarrow> Inl err
      | Inr ret2 \<Rightarrow> New_loop lib cod (Suc i) ds ret2)"
  by (auto simp add: loader_features_def Let_def split: if_splits sum.splits option.splits)

lemma New_loop_head_ok:
  fixes lib :: "('f, 'll, 'pt, 'loop, 'poly) geo_lib" and cod :: "('f, 'zr, 'e) codec"
  assumes ok: "loader_ok lib cod d" and ing: "ingested lib fs ret"
  shows "\<exists>ret'. ingested lib (fs @ all_features cod [d]) ret'
           \<and> New_loop lib cod i (d # ds) ret = New_loop lib cod (Suc i) ds ret'"
proof -
  from ok obtain tfc where tfc: "loader_features cod d = Some tfc" "list_all (feature_ok lib) tfc"
    by (auto simp add: loader_ok_def split: option.splits)
  have "\<exists>ret'. (features_loop lib (lname d) tfc (register_dataset (lname d) ret)
            :: ('f, 'e) new_error + ('f, 'poly) Rgeo) = Inr ret'
          \<and> ingested lib (fs @ map (Pair (lname d)) tfc) ret'"
    using tfc(2) register_dataset_registered register_dataset_ingested [OF ing]
    by (rule features_loop_ok)
  then obtain ret' where ret': "(features_loop lib (lname d) tfc (register_dataset (lname d) ret)
            :: ('f, 'e) new_error + ('f, 'poly) Rgeo) = Inr ret'"
    "ingested lib (fs @ map (Pair (lname d)) tfc) ret'" by blast
  have "New_loop lib cod i (d # ds) ret = New_loop lib cod (Suc i) ds ret'"
    using New_loop_features [OF tfc(1), of lib i ds ret] ret'(1) by simp
  moreover have "all_features cod [d] = map (Pair (lname d)) tfc"
    using tfc(1) by (simp add: all_features_def)
  ultimately show ?thesis using ret'(2) by auto
qed


lemma all_features_Cons: "all_features cod (d # ds) = all_features cod [d] @ all_features cod ds"
  by (simp add: all_features_def)

lemma all_features_Nil: "all_features cod [] = []"
  by (simp add: all_features_def)

lemma New_loop_prefix:
  "list_all (loader_ok lib cod) pre \<Longrightarrow> ingested lib fs ret \<Longrightarrow>
   \<exists>ret'. ingested lib (fs @ all_features cod pre) ret'
     \<and> New_loop lib cod i (pre @ rest) ret = New_loop lib cod (i + length pre) rest ret'"
proof (induction pre arbitrary: i fs ret)
  case Nil
  then show ?case by (auto simp add: all_features_Nil)
next
  case (Cons d pre)
  from Cons.prems have ok: "loader_ok lib cod d" and oks: "list_all (loader_ok lib cod) pre"
    by simp_all
  from New_loop_head_ok [OF ok Cons.prems(2), of i "pre @ rest"] obtain ret1 where
    ing1: "ingested lib (fs @ all_features cod [d]) ret1"
    and run1: "New_loop lib cod i (d # pre @ rest) ret = New_loop lib cod (Suc i) (pre @ rest) ret1"
    by blast
  from Cons.IH [OF oks ing1, of "Suc i"] obtain ret2 where
    ing2: "ingested lib ((fs @ all_features cod [d]) @ all_features cod pre) ret2"
    and run2: "New_loop lib cod (Suc i) (pre @ rest) ret1 =
       New_loop lib cod (Suc i + length pre) rest ret2"
    by blast
  have "ingested lib (fs @ all_features cod (d # pre)) ret2"
    using ing2 all_features_Cons [of cod d pre] by simp
  moreover have "New_loop lib cod i ((d # pre) @ rest) ret =
      New_loop lib cod (i + length (d # pre)) rest ret2"
    using run1 run2 by simp
  ultimately show ?case by blast
qed

lemma New_loop_head_bad:
  fixes lib :: "('f, 'll, 'pt, 'loop, 'poly) geo_lib" and cod :: "('f, 'zr, 'e) codec"
  assumes bad: "\<not> loader_ok lib cod d"
  shows "\<exists>err. New_loop lib cod i (d # ds) ret = Inl err"
proof (cases "loader_features cod d")
  case None
  then show ?thesis
    by (auto simp add: loader_features_def split: if_splits sum.splits option.splits)
next
  case (Some tfc)
  with bad have "\<not> list_all (feature_ok lib) tfc" by (simp add: loader_ok_def)
  then have "\<exists>err. (features_loop lib (lname d) tfc (register_dataset (lname d) ret)
      :: ('f, 'e) new_error + ('f, 'poly) Rgeo) = Inl (BadPolygon err)"
    using register_dataset_registered by (rule features_loop_bad)
  then show ?thesis
    using New_loop_features [OF Some, of lib i ds ret] by auto
qed

lemma New_loop_head_bad_polygon:
  fixes lib :: "('f, 'll, 'pt, 'loop, 'poly) geo_lib" and cod :: "('f, 'zr, 'e) codec"
  assumes tfc: "loader_features cod d = Some (good @ c # rest)"
    and good: "list_all (feature_ok lib) good"
    and bad: "polygonFromGeometry lib (fGeometry c) = Inl err"
  shows "New_loop lib cod i (d # ds) ret = Inl (BadPolygon err)"
proof -
  have "(features_loop lib (lname d) (good @ c # rest) (register_dataset (lname d) ret)
      :: ('f, 'e) new_error + ('f, 'poly) Rgeo) = Inl (BadPolygon err)"
    using good bad register_dataset_registered by (rule features_loop_first_bad)
  then show ?thesis
    using New_loop_features [OF tfc, of lib i ds ret] by simp
qed

lemma New_loop_NoData:
  "payload d = [] \<Longrightarrow> New_loop lib cod i (d # ds) ret = Inl (NoData i)"
  by simp

lemma New_loop_DecompressionFailed:
  "payload d \<noteq> [] \<Longrightarrow> gzipNewReader cod (payload d) = Inl err \<Longrightarrow>
   New_loop lib cod i (d # ds) ret = Inl (DecompressionFailed i err)"
  by simp

lemma New_loop_InvalidJSON:
  "payload d \<noteq> [] \<Longrightarrow> gzipNewReader cod (payload d) = Inr zr \<Longrightarrow> jsonDecode cod zr = Inl err \<Longrightarrow>
   New_loop lib cod i (d # ds) ret = Inl (InvalidJSON i err)"
  by simp

lemma ingested_init: "ingested lib [] Rgeo_init"
  by (simp add: ingested_iff Rgeo_init_def)

lemma New_prefix:
  assumes "list_all (loader_ok lib cod) pre"
  shows "\<exists>ret'. ingested lib (all_features cod pre) ret'
     \<and> New_loop lib cod 0 (pre @ rest) Rgeo_init = New_loop lib cod (length pre) rest ret'"
  using New_loop_prefix [OF assms ingested_init, of 0 rest] by simp

lemma New_bad:
  assumes "\<exists>d\<in>set ds. \<not> loader_ok lib cod d"
  shows "\<exists>err. New lib cod ds = (None, Some err)"
proof -
  from first_bad_split [OF assms] obtain pre d post where
    ds: "ds = pre @ d # post" and pre: "\<forall>g\<in>set pre. loader_ok lib cod g"
    and bad: "\<not> loader_ok lib cod d" by blast
  from pre have "list_all (loader_ok lib cod) pre" by (simp add: list_all_iff)
  from New_prefix [OF this, of "d # post"] obtain ret' where
    "New_loop lib cod 0 (pre @ d # post) Rgeo_init = New_loop lib cod (length pre) (d # post) ret'"
    by blast
  moreover from New_loop_head_bad [OF bad, of "length pre" post ret'] obtain err where
    "New_loop lib cod (length pre) (d # post) ret' = Inl err" by blast
  ultimately show ?thesis using ds by (simp add: New_def)
qed

lemma New_ok:
  assumes "list_all (loader_ok lib cod) ds"
  shows "\<exists>eng. New lib cod ds = (Some eng, None) \<and> ingested lib (all_features cod ds) eng"
proof -
  from New_prefix [OF assms, of "[]"] obtain ret' where
    "ingested lib (all_features cod ds) ret'"
    "New_loop lib cod 0 ds Rgeo_init = Inr ret'" by auto
  then show ?thesis by (simp add: New_def)
qed


lemma New_bad_polygon:
  assumes ds: "ds = pre @ d # post" and pre: "list_all (loader_ok lib cod) pre"
    and tfc: "loader_features cod d = Some (good @ c # rest)"
    and good: "list_all (feature_ok lib) good"
    and err: "geometry_error lib (fGeometry c) = Some err"
  shows "New lib cod ds = (None, Some (BadPolygon err))"
proof -
  from New_prefix [OF pre, of "d # post"] obtain ret' where run:
    "New_loop lib cod 0 (pre @ d # post) Rgeo_init = New_loop lib cod (length pre) (d # post) ret'"
    by blast
  from err have "polygonFromGeometry lib (fGeometry c) = Inl err"
    by (simp add: polygonFromGeometry_eq)
  with tfc good have "New_loop lib cod (length pre) (d # post) ret' = Inl (BadPolygon err)"
    by (rule New_loop_head_bad_polygon)
  with ds run show ?thesis
    by (simp add: New_def del: New_loop.simps)
qed

lemma New_Some:
  assumes eng: "fst (New lib cod ds) = Some eng"
  shows "snd (New lib cod ds) = None \<and> list_all (loader_ok lib cod) ds
          \<and> ingested lib (all_features cod ds) eng"
proof -
  have ok: "list_all (loader_ok lib cod) ds"
  proof (rule ccontr)
    assume "\<not> list_all (loader_ok lib cod) ds"
    then have "\<exists>d\<in>set ds. \<not> loader_ok lib cod d" by (simp add: list_all_iff)
    from New_bad [OF this] eng show False by auto
  qed
  from New_ok [OF ok] eng show ?thesis
    using ok by auto
qed

text \<open>
  Claim C6. A dataset is ingestible when its payload is not empty, decompresses and
  decodes, its reader closes, and every geometry it holds is well-formed: a polygon
  or a multi-polygon whose rings all have at least 4 points and are closed. If any
  dataset is not ingestible, \<open>New\<close> returns an error and no engine. With all earlier
  datasets ingestible, a dataset with an empty payload gives the no-data error, one
  that fails to decompress the decompression error, one that fails to decode the
  invalid-JSON error, each with that dataset's index; one whose first feature with a
  geometry that is not well-formed has the geometry error \<open>err\<close> (too few points or
  unclosed for the first bad ring of a polygon or of a polygon of a multi-polygon,
  unsupported for another kind) gives the bad-polygon error around \<open>err\<close>, which
  carries no index. An engine is returned only with no error, only when every dataset
  is ingestible, and it then holds every feature of every dataset, each with the
  polygon of the loops of its rings; when every dataset is ingestible an engine is
  returned.
\<close>

theorem New_atomic:
  fixes lib :: "('f, 'll, 'pt, 'loop, 'poly) geo_lib" and cod :: "('f, 'zr, 'e) codec"
  shows
  "((\<exists>d\<in>set ds. \<not> loader_ok lib cod d) \<longrightarrow> (\<exists>err. New lib cod ds = (None, Some err)))
   \<and> (\<forall>pre d post.
        ds = pre @ d # post \<and> list_all (loader_ok lib cod) pre \<and> payload d = [] \<longrightarrow>
        New lib cod ds = (None, Some (NoData (length pre))))
   \<and> (\<forall>pre d post err.
        ds = pre @ d # post \<and> list_all (loader_ok lib cod) pre \<and> payload d \<noteq> []
          \<and> gzipNewReader cod (payload d) = Inl err \<longrightarrow>
        New lib cod ds = (None, Some (DecompressionFailed (length pre) err)))
   \<and> (\<forall>pre d post zr err.
        ds = pre @ d # post \<and> list_all (loader_ok lib cod) pre \<and> payload d \<noteq> []
          \<and> gzipNewReader cod (payload d) = Inr zr \<and> jsonDecode cod zr = Inl err \<longrightarrow>
        New lib cod ds = (None, Some (InvalidJSON (length pre) err)))
   \<and> (\<forall>pre d post good c rest err.
        ds = pre @ d # post \<and> list_all (loader_ok lib cod) pre
          \<and> loader_features cod d = Some (good @ c # rest) \<and> list_all (feature_ok lib) good
          \<and> geometry_error lib (fGeometry c) = Some err \<longrightarrow>
        New lib cod ds = (None, Some (BadPolygon err)))
   \<and> (\<forall>pre d post good c rest.
        ds = pre @ d # post \<and> list_all (loader_ok lib cod) pre
          \<and> loader_features cod d = Some (good @ c # rest) \<and> list_all (feature_ok lib) good
          \<and> \<not> geometry_ok lib (fGeometry c) \<longrightarrow>
        (\<exists>err. New lib cod ds = (None, Some (BadPolygon err))))
   \<and> (\<forall>eng. fst (New lib cod ds) = Some eng \<longrightarrow>
        snd (New lib cod ds) = None \<and> list_all (loader_ok lib cod) ds
          \<and> ingested lib (all_features cod ds) eng)
   \<and> (list_all (loader_ok lib cod) ds \<longrightarrow> (\<exists>eng. New lib cod ds = (Some eng, None)))"
proof (intro conjI allI impI)
  assume "\<exists>d\<in>set ds. \<not> loader_ok lib cod d"
  then show "\<exists>err. New lib cod ds = (None, Some err)" by (rule New_bad)
next
  fix pre d post
  assume h: "ds = pre @ d # post \<and> list_all (loader_ok lib cod) pre \<and> payload d = []"
  then obtain ret' where
    "New_loop lib cod 0 (pre @ d # post) Rgeo_init = New_loop lib cod (length pre) (d # post) ret'"
    using New_prefix [of lib cod pre "d # post"] by blast
  with h show "New lib cod ds = (None, Some (NoData (length pre)))"
    by (simp add: New_def New_loop_NoData del: New_loop.simps)
next
  fix pre d post err
  assume h: "ds = pre @ d # post \<and> list_all (loader_ok lib cod) pre \<and> payload d \<noteq> []
          \<and> gzipNewReader cod (payload d) = Inl err"
  then obtain ret' where
    "New_loop lib cod 0 (pre @ d # post) Rgeo_init = New_loop lib cod (length pre) (d # post) ret'"
    using New_prefix [of lib cod pre "d # post"] by blast
  with h show "New lib cod ds = (None, Some (DecompressionFailed (length pre) err))"
    by (simp add: New_def New_loop_DecompressionFailed del: New_loop.simps)
next
  fix pre d post zr err
  assume h: "ds = pre @ d # post \<and> list_all (loader_ok lib cod) pre \<and> payload d \<noteq> []
          \<and> gzipNewReader cod (payload d) = Inr zr \<and> jsonDecode cod zr = Inl err"
  then obtain ret' where
    "New_loop lib cod 0 (pre @ d # post) Rgeo_init = New_loop lib cod (length pre) (d # post) ret'"
    using New_prefix [of lib cod pre "d # post"] by blast
  with h show "New lib cod ds = (None, Some (InvalidJSON (length pre) err))"
    by (simp add: New_def New_loop_InvalidJSON del: New_loop.simps)
next
  fix pre d post good c rest err
  assume h: "ds = pre @ d # post \<and> list_all (loader_ok lib cod) pre
          \<and> loader_features cod d = Some (good @ c # rest) \<and> list_all (feature_ok lib) good
          \<and> geometry_error lib (fGeometry c) = Some err"
  then show "New lib cod ds = (None, Some (BadPolygon err))"
    using New_bad_polygon [of ds pre d post lib cod good c rest err] by blast
next
  fix pre d post good c rest
  assume h: "ds = pre @ d # post \<and> list_all (loader_ok lib cod) pre
          \<and> loader_features cod d = Some (good @ c # rest) \<and> list_all (feature_ok lib) good
          \<and> \<not> geometry_ok lib (fGeometry c)"
  then obtain err where "geometry_error lib (fGeometry c) = Some err"
    using polygonFromGeometry_not_ok [of lib "fGeometry c"] by blast
  with h have "New lib cod ds = (None, Some (BadPolygon err))"
    using New_bad_polygon [of ds pre d post lib cod good c rest err] by blast
  then show "\<exists>err. New lib cod ds = (None, Some (BadPolygon err))" by blast
next
  fix eng
  assume "fst (New lib cod ds) = Some eng"
  from New_Some [OF this] show "snd (New lib cod ds) = None" by simp
next
  fix eng
  assume "fst (New lib cod ds) = Some eng"
  from New_Some [OF this] show "list_all (loader_ok lib cod) ds" by simp
next
  fix eng
  assume "fst (New lib cod ds) = Some eng"
  from New_Some [OF this] show "ingested lib (all_features cod ds) eng" by simp
next
  assume "list_all (loader_ok lib cod) ds"
  from New_ok [OF this] show "\<exists>eng. New lib cod ds = (Some eng, None)" by blast
qed

lemma demo_good_features:
  "loader_features demo_codec demo_good = Some [demo_feature 1]"
  by (simp add: loader_features_def demo_codec_def demo_good_def)

lemma demo_ring_loop: "ring_loop grid_lib demo_ring = [(0, 0), (0, 10), (10, 10), (10, 0)]"
proof -
  have "\<not> isClockwise grid_lib demo_ring"
    by (simp add: demo_ring_def grid_lib_def isClockwise_def)
  moreover have "loopFromRing_pts grid_lib demo_ring False = [(0, 0), (0, 10), (10, 10), (10, 0)]"
    by (simp add: loopFromRing_pts_forward demo_ring_def grid_lib_def pointFromCoord_def)
  ultimately show ?thesis
    by (simp add: ring_loop_def grid_lib_loops(1) demo_caps Let_def)
qed

lemma demo_cw_ring_loop: "ring_loop grid_lib demo_cw_ring = [(0, 0), (0, 10), (10, 10), (10, 0)]"
  by (simp add: ring_loop_def demo_cw_ring_facts demo_cw_ring_pts grid_lib_loops(1) demo_caps
      Let_def)

lemma demo_cw_ring_ok: "ring_ok grid_lib demo_cw_ring"
  using demo_cw_ring_facts by (simp add: ring_ok_def)

lemma demo_feature_1_ok: "feature_ok grid_lib (demo_feature 1)"
  by (simp add: feature_ok_def geometry_ok_def demo_feature_def demo_ring_ok)

lemma demo_feature_5_ok: "feature_ok grid_lib (demo_feature 5)"
  by (simp add: feature_ok_def geometry_ok_def demo_feature_def demo_ring_ok demo_cw_ring_ok)

lemma demo_feature_1_location:
  "getLocationStrings (fProperties (demo_feature 1)) =
     Location_zero\<lparr>Country := ''Testland'', CountryCode3 := ''TST''\<rparr>"
  by (simp add: getLocationStrings_def getPropertyString_def demo_feature_def TrimSuffix_def
      Location_zero_def)

lemma demo_good_ok: "loader_ok grid_lib demo_codec demo_good"
  by (simp add: loader_ok_def demo_good_features demo_feature_1_ok)

lemma demo_open_ring_bad: "\<not> ring_ok grid_lib demo_open_ring" "\<not> length demo_open_ring < 4"
  by (simp_all add: ring_ok_def demo_open_ring_def grid_lib_def)

lemma demo_short_ring_bad: "\<not> ring_ok grid_lib [(0, 0), (1, 1)]"
  by (simp add: ring_ok_def)

lemma demo_feature_2_error:
  "geometry_error grid_lib (fGeometry (demo_feature 2)) = Some (LastNotFirst [demo_open_ring])"
  by (simp add: demo_feature_def geometry_error_def polygon_error_def demo_open_ring_bad)

lemma demo_feature_3_error:
  "geometry_error grid_lib (fGeometry (demo_feature 3)) = Some NeedsPolygon"
  by (simp add: demo_feature_def geometry_error_def)

lemma demo_feature_4_bad: "\<not> geometry_ok grid_lib (fGeometry (demo_feature 4))"
  by (simp add: demo_feature_def geometry_ok_def demo_short_ring_bad)

lemma demo_feature_4_error:
  "geometry_error grid_lib (fGeometry (demo_feature 4)) = Some TooFewPoints"
  by (simp add: demo_feature_def geometry_error_def polygon_error_def demo_ring_ok
      demo_short_ring_bad)

lemma grid_lib_polygon: "PolygonFromLoops grid_lib loops = loops"
  by (simp add: grid_lib_def)

lemma demo_names:
  "lname demo_good = ''rgeo.Countries110''"
  "lname (demo_loader bs) = ''rgeo.Provinces10''"
  by (simp_all add: demo_good_def demo_loader_def)

lemma demo_loader_features:
  "loader_features demo_codec (demo_loader [31, 1, 2]) = Some ([demo_feature 1] @ demo_feature 2 # [])"
  "loader_features demo_codec (demo_loader [31, 3]) = Some ([] @ demo_feature 3 # [])"
  "loader_features demo_codec (demo_loader [31, 4]) = Some ([] @ demo_feature 4 # [])"
  "loader_features demo_codec (demo_loader [31, 5]) = Some [demo_feature 5]"
  by (simp_all add: loader_features_def demo_codec_def demo_loader_def)

theorem New_atomic_witness:
  "loader_ok grid_lib demo_codec demo_good
   \<and> New grid_lib demo_codec [demo_good, demo_loader []] = (None, Some (NoData 1))
   \<and> New grid_lib demo_codec [demo_good, demo_loader [0]] =
       (None, Some (DecompressionFailed 1 ''gzip: invalid header''))
   \<and> New grid_lib demo_codec [demo_good, demo_loader [31, 255]] =
       (None, Some (InvalidJSON 1 ''invalid character''))
   \<and> New grid_lib demo_codec [demo_good, demo_loader [31, 1, 2]] =
       (None, Some (BadPolygon (LastNotFirst [demo_open_ring])))
   \<and> New grid_lib demo_codec [demo_good, demo_loader [31, 3]] =
       (None, Some (BadPolygon NeedsPolygon))
   \<and> \<not> geometry_ok grid_lib (MultiPolygon [[demo_ring], [[(0, 0), (1, 1)]]])
   \<and> New grid_lib demo_codec [demo_good, demo_loader [31, 4]] =
       (None, Some (BadPolygon TooFewPoints))
   \<and> (\<exists>eng. New grid_lib demo_codec [demo_good, demo_loader [31, 5]] = (Some eng, None)
         \<and> length (index eng) = 2
         \<and> index eng ! 1 =
             (1, [[(0, 0), (0, 10), (10, 10), (10, 0)], [(0, 0), (0, 10), (10, 10), (10, 0)]])
         \<and> locs eng 0 = Some (Location_zero\<lparr>Country := ''Testland'', CountryCode3 := ''TST''\<rparr>))"
proof -
  have pre: "list_all (loader_ok grid_lib demo_codec) [demo_good]"
    using demo_good_ok by simp
  have a: "New grid_lib demo_codec [demo_good, demo_loader []] = (None, Some (NoData 1))"
    using New_atomic [of "[demo_good, demo_loader []]" grid_lib demo_codec,
        THEN conjunct2, THEN conjunct1, THEN spec, THEN spec, THEN spec,
        of "[demo_good]" "demo_loader []" "[]"] pre
    by (simp add: demo_loader_def)
  have b: "New grid_lib demo_codec [demo_good, demo_loader [0]] =
       (None, Some (DecompressionFailed 1 ''gzip: invalid header''))"
    using New_atomic [of "[demo_good, demo_loader [0]]" grid_lib demo_codec,
        THEN conjunct2, THEN conjunct2, THEN conjunct1, THEN spec, THEN spec, THEN spec, THEN spec,
        of "[demo_good]" "demo_loader [0]" "[]" "''gzip: invalid header''"] pre
    by (simp add: demo_loader_def demo_codec_def)
  have c: "New grid_lib demo_codec [demo_good, demo_loader [31, 255]] =
       (None, Some (InvalidJSON 1 ''invalid character''))"
    using New_atomic [of "[demo_good, demo_loader [31, 255]]" grid_lib demo_codec,
        THEN conjunct2, THEN conjunct2, THEN conjunct2, THEN conjunct1,
        THEN spec, THEN spec, THEN spec, THEN spec, THEN spec,
        of "[demo_good]" "demo_loader [31, 255]" "[]" "[255]" "''invalid character''"] pre
    by (simp add: demo_loader_def demo_codec_def)
  have d: "New grid_lib demo_codec [demo_good, demo_loader [31, 1, 2]] =
       (None, Some (BadPolygon (LastNotFirst [demo_open_ring])))"
    using New_atomic [of "[demo_good, demo_loader [31, 1, 2]]" grid_lib demo_codec,
        THEN conjunct2, THEN conjunct2, THEN conjunct2, THEN conjunct2, THEN conjunct1,
        THEN spec, THEN spec, THEN spec, THEN spec, THEN spec, THEN spec, THEN spec,
        of "[demo_good]" "demo_loader [31, 1, 2]" "[]" "[demo_feature 1]" "demo_feature 2" "[]"
          "LastNotFirst [demo_open_ring]"]
      pre demo_loader_features(1) demo_feature_1_ok demo_feature_2_error
    by simp
  have d3: "New grid_lib demo_codec [demo_good, demo_loader [31, 3]] =
       (None, Some (BadPolygon NeedsPolygon))"
    using New_atomic [of "[demo_good, demo_loader [31, 3]]" grid_lib demo_codec,
        THEN conjunct2, THEN conjunct2, THEN conjunct2, THEN conjunct2, THEN conjunct1,
        THEN spec, THEN spec, THEN spec, THEN spec, THEN spec, THEN spec, THEN spec,
        of "[demo_good]" "demo_loader [31, 3]" "[]" "[]" "demo_feature 3" "[]" NeedsPolygon]
      pre demo_loader_features(2) demo_feature_3_error
    by simp
  have d4: "New grid_lib demo_codec [demo_good, demo_loader [31, 4]] =
       (None, Some (BadPolygon TooFewPoints))"
    using New_atomic [of "[demo_good, demo_loader [31, 4]]" grid_lib demo_codec,
        THEN conjunct2, THEN conjunct2, THEN conjunct2, THEN conjunct2, THEN conjunct1,
        THEN spec, THEN spec, THEN spec, THEN spec, THEN spec, THEN spec, THEN spec,
        of "[demo_good]" "demo_loader [31, 4]" "[]" "[]" "demo_feature 4" "[]" TooFewPoints]
      pre demo_loader_features(3) demo_feature_4_error
    by simp
  have bad4: "\<not> geometry_ok grid_lib (MultiPolygon [[demo_ring], [[(0, 0), (1, 1)]]])"
    using demo_feature_4_bad by (simp add: demo_feature_def)
  have ok5: "loader_ok grid_lib demo_codec (demo_loader [31, 5])"
    by (simp add: loader_ok_def demo_loader_features(4) demo_feature_5_ok)
  have both: "list_all (loader_ok grid_lib demo_codec) [demo_good, demo_loader [31, 5]]"
    using demo_good_ok ok5 by simp
  note t = New_atomic [of "[demo_good, demo_loader [31, 5]]" grid_lib demo_codec]
  note last = t [THEN conjunct2, THEN conjunct2, THEN conjunct2, THEN conjunct2, THEN conjunct2,
        THEN conjunct2]
  have "\<exists>eng. New grid_lib demo_codec [demo_good, demo_loader [31, 5]] = (Some eng, None)"
    using last [THEN conjunct2] both by (rule mp)
  then obtain eng where
    eng: "New grid_lib demo_codec [demo_good, demo_loader [31, 5]] = (Some eng, None)"
    by (rule exE)
  then have "fst (New grid_lib demo_codec [demo_good, demo_loader [31, 5]]) = Some eng" by simp
  with last [THEN conjunct1, THEN spec, of eng]
  have "ingested grid_lib (all_features demo_codec [demo_good, demo_loader [31, 5]]) eng"
    by simp
  moreover have "all_features demo_codec [demo_good, demo_loader [31, 5]] =
      [(''rgeo.Countries110'', demo_feature 1), (''rgeo.Provinces10'', demo_feature 5)]"
    by (simp add: all_features_def demo_good_features demo_loader_features(4) demo_names)
  ultimately have ing:
    "ingested grid_lib
       [(''rgeo.Countries110'', demo_feature 1), (''rgeo.Provinces10'', demo_feature 5)] eng"
    by simp
  have len: "length (index eng) = 2"
    using ing by (simp add: ingested_iff)
  have k1: "fst (index eng ! 1) = 1
      \<and> snd (index eng ! 1) =
          PolygonFromLoops grid_lib (geometry_loops grid_lib (fGeometry (demo_feature 5)))"
    using ing [unfolded ingested_iff, THEN conjunct2, THEN spec, of 1] by simp
  have loops5: "PolygonFromLoops grid_lib (geometry_loops grid_lib (fGeometry (demo_feature 5))) =
      [[(0, 0), (0, 10), (10, 10), (10, 0)], [(0, 0), (0, 10), (10, 10), (10, 0)]]"
    by (simp add: geometry_loops_def demo_feature_def demo_ring_loop demo_cw_ring_loop
        grid_lib_polygon)
  have i1: "index eng ! 1 =
      (1, [[(0, 0), (0, 10), (10, 10), (10, 0)], [(0, 0), (0, 10), (10, 10), (10, 0)]])"
    using k1 loops5 by (simp add: prod_eq_iff)
  have k0: "locs eng 0 = Some (getLocationStrings (fProperties (demo_feature 1)))"
    using ing [unfolded ingested_iff, THEN conjunct2, THEN spec, of 0] by simp
  have l0: "locs eng 0 = Some (Location_zero\<lparr>Country := ''Testland'', CountryCode3 := ''TST''\<rparr>)"
    unfolding k0 by (simp add: demo_feature_1_location)
  from eng len i1 l0
  have e: "\<exists>eng. New grid_lib demo_codec [demo_good, demo_loader [31, 5]] = (Some eng, None)
         \<and> length (index eng) = 2
         \<and> index eng ! 1 =
             (1, [[(0, 0), (0, 10), (10, 10), (10, 0)], [(0, 0), (0, 10), (10, 10), (10, 0)]])
         \<and> locs eng 0 = Some (Location_zero\<lparr>Country := ''Testland'', CountryCode3 := ''TST''\<rparr>)"
    by blast
  show ?thesis using demo_good_ok a b c d d3 bad4 d4 e by blast
qed

end
